theory Spec2Isabelle
  imports Main
begin

section \<open>Data model\<close>

text \<open>
  The handler of \<^verbatim>\<open>asg53\<close> decodes an auto scaling lifecycle notification, renders the
  Go templates of a Route 53 change batch against the instance's data, sends the batch
  and reports \<^verbatim>\<open>CONTINUE\<close> or \<^verbatim>\<open>ABANDON\<close>.

  Go pointers are modelled as \<open>option\<close> (\<open>None\<close> is \<^verbatim>\<open>nil\<close>); dereferencing
  \<^verbatim>\<open>nil\<close> and indexing a slice out of range are run-time panics, which the model keeps
  apart from returned errors.
\<close>

text \<open>Errors the program builds with \<^verbatim>\<open>fmt.Errorf\<close> or \<^verbatim>\<open>errors.New\<close>, and the
  errors handed back by the libraries it calls.\<close>

datatype error =
    LibraryError string
  | NoRecords
  | SessionError error
  | FetchInstanceError error
  | InstanceNotFound string
  | LocateRecordError error
  | RecordSetNotFound string string
  | SendBatchError error
  | RRSetIndexOutOfRange int
  | RDataIndexOutOfRange int
  | TemplateParseError
  | TemplateExecError error

text \<open>What a call of the program yields: a value, a returned error, a run-time panic, or
  \<open>Unmodelled\<close> when a template leaves the fragment of \<^verbatim>\<open>text/template\<close> that the
  model covers (no statement is made about such runs).\<close>

datatype 'a outcome = Ok 'a | Err error | Panic | Unmodelled

record snsEvent =
  Message :: string

record eventRecord =
  Sns :: snsEvent

record eventNotification =
  Records :: "eventRecord list"

record snsMessage =
  Event :: string
  EC2InstanceID :: string
  AutoScalingGroupName :: string
  LifecycleHookName :: string
  LifecycleActionToken :: string
  NotificationMetadata :: string

record ResourceRecord =
  Value :: "string option"

record ResourceRecordSet =
  Name :: "string option"
  Type :: "string option"
  TTL :: "int option"
  ResourceRecords :: "ResourceRecord option list"

record Change =
  Action :: "string option"
  ResourceRecordSet :: "ResourceRecordSet option"

type_synonym batch = "Change option list"

record messageArgs =
  HostedZoneID :: string
  Changes :: batch

record Instance =
  InstanceId :: "string option"
  PrivateIpAddress :: "string option"
  PublicIpAddress :: "string option"

record Reservation =
  Instances :: "Instance list"

record ListResourceRecordSetsInput =
  HostedZoneId :: string
  MaxItems :: string
  StartRecordName :: string
  StartRecordType :: string

record CompleteLifecycleActionInput =
  AutoScalingGroupName :: string
  InstanceId :: string
  LifecycleActionResult :: string
  LifecycleActionToken :: string
  LifecycleHookName :: string

record WaitAcceptor =
  State :: string
  Matcher :: string
  Argument :: string
  Expected :: string

record waiterConfig =
  Operation :: string
  Delay :: nat
  MaxAttempts :: nat
  Acceptors :: "WaitAcceptor list"

text \<open>
  \<open>awsClient\<close>: the three service connections, as the requests the program sends
  through them. \<open>WaiterWait\<close> is the SDK's \<^verbatim>\<open>waiter.Waiter.Wait\<close> on the given
  configuration and change id.
\<close>

record awsClient =
  DescribeInstances :: "string list \<Rightarrow> error + Reservation list"
  ListResourceRecordSets :: "ListResourceRecordSetsInput \<Rightarrow> error + ResourceRecordSet list"
  ChangeResourceRecordSets :: "string \<Rightarrow> batch \<Rightarrow> error + string"
  WaiterWait :: "waiterConfig \<Rightarrow> string \<Rightarrow> error option"
  CompleteLifecycleAction :: "CompleteLifecycleActionInput \<Rightarrow> error option"

text \<open>\<open>instanceData\<close>: the data available to the templates. The \<^verbatim>\<open>Client\<close> field of the
  source is passed beside the record.\<close>

record instanceData =
  HostedZoneID :: string
  Batch :: batch
  InstanceID :: string
  InstancePrivateIPAddress :: string
  InstancePublicIPAddress :: string

section \<open>Service calls\<close>

definition FetchEC2InstanceData :: "awsClient \<Rightarrow> string \<Rightarrow> Instance outcome" where
  "FetchEC2InstanceData c instanceID =
     (case DescribeInstances c [instanceID] of
        Inl e \<Rightarrow> Err (FetchInstanceError e)
      | Inr reservations \<Rightarrow>
          (if length reservations < 1 \<or> length (Instances (reservations ! 0)) < 1
           then Err (InstanceNotFound instanceID)
           else Ok (Instances (reservations ! 0) ! 0)))"

definition FindRoute53ResourceRecord ::
  "awsClient \<Rightarrow> string \<Rightarrow> string \<Rightarrow> string \<Rightarrow> ResourceRecord option list outcome" where
  "FindRoute53ResourceRecord c zoneID name rrType =
     (case ListResourceRecordSets c
             \<lparr>HostedZoneId = zoneID, MaxItems = ''1'',
              StartRecordName = name, StartRecordType = rrType\<rparr> of
        Inl e \<Rightarrow> Err (LocateRecordError e)
      | Inr sets \<Rightarrow>
          (if length sets < 1 then Err (RecordSetNotFound name rrType)
           else Ok (ResourceRecords (sets ! 0))))"


section \<open>The data available to the templates\<close>

definition populate :: "awsClient \<Rightarrow> string \<Rightarrow> string \<Rightarrow> batch \<Rightarrow> instanceData outcome" where
  "populate c instanceID hostedZoneID batch =
     (let data = \<lparr>HostedZoneID = hostedZoneID, Batch = batch, InstanceID = [],
                   InstancePrivateIPAddress = [], InstancePublicIPAddress = []\<rparr>
      in case FetchEC2InstanceData c instanceID of
           Ok instance \<Rightarrow>
             (let data1 = data\<lparr>InstanceID := instanceID\<rparr>;
                  data2 = (case PrivateIpAddress instance of
                             None \<Rightarrow> data1
                           | Some a \<Rightarrow> if a \<noteq> [] then data1\<lparr>InstancePrivateIPAddress := a\<rparr> else data1);
                  data3 = (case PublicIpAddress instance of
                             None \<Rightarrow> data2
                           | Some a \<Rightarrow> if a \<noteq> [] then data2\<lparr>InstancePublicIPAddress := a\<rparr> else data2)
              in Ok data3)
         | Err e \<Rightarrow> Err e
         | Panic \<Rightarrow> Panic
         | Unmodelled \<Rightarrow> Unmodelled)"

text \<open>Go's slice indexing \<^verbatim>\<open>xs[i]\<close> with a signed index: \<open>None\<close> is the run-time panic
  "index out of range".\<close>

definition index :: "'a list \<Rightarrow> int \<Rightarrow> 'a option" where
  "index xs i = (if 0 \<le> i \<and> i < int (length xs) then Some (xs ! nat i) else None)"

text \<open>A call of \<^verbatim>\<open>FindRoute53ResourceRecord\<close> made for a template: the set index asked
  for, and the record name and type handed to the lookup.\<close>

datatype lookup = Lookup (setIndex: int) (lookupName: string) (lookupType: string)

definition ExistingRDataValue ::
  "awsClient \<Rightarrow> instanceData \<Rightarrow> int \<Rightarrow> int \<Rightarrow> string outcome \<times> lookup list" where
  "ExistingRDataValue c d rrSetIndex rDataIndex =
     (if int (length (Batch d)) - 1 < rrSetIndex
      then (Err (RRSetIndexOutOfRange rrSetIndex), [])
      else
        (case index (Batch d) rrSetIndex of
           None \<Rightarrow> (Panic, [])
         | Some None \<Rightarrow> (Panic, [])
         | Some (Some rrSet) \<Rightarrow>
             (case ResourceRecordSet rrSet of
                None \<Rightarrow> (Panic, [])
              | Some rs \<Rightarrow>
                  (case (Name rs, Type rs) of
                     (Some name, Some rrType) \<Rightarrow>
                       (case FindRoute53ResourceRecord c (HostedZoneID d) name rrType of
                          Ok rData \<Rightarrow>
                            (if int (length rData) - 1 < rDataIndex
                             then (Err (RDataIndexOutOfRange rDataIndex),
                                   [Lookup rrSetIndex name rrType])
                             else
                               (case index rData rDataIndex of
                                  Some (Some rDataItem) \<Rightarrow>
                                    (case Value rDataItem of
                                       Some v \<Rightarrow> (Ok v, [Lookup rrSetIndex name rrType])
                                     | None \<Rightarrow> (Panic, [Lookup rrSetIndex name rrType]))
                                | _ \<Rightarrow> (Panic, [Lookup rrSetIndex name rrType])))
                        | Err e \<Rightarrow> (Err e, [Lookup rrSetIndex name rrType])
                        | Panic \<Rightarrow> (Panic, [Lookup rrSetIndex name rrType])
                        | Unmodelled \<Rightarrow> (Unmodelled, [Lookup rrSetIndex name rrType]))
                   | _ \<Rightarrow> (Panic, [])))))"

section \<open>The template fragment\<close>

text \<open>
  Go's \<^verbatim>\<open>text/template\<close> is a library outside the repository. The model covers the
  fragment that the documentation of \<^verbatim>\<open>messageArgs\<close> names: literal text, the string
  fields of \<^verbatim>\<open>instanceData\<close> written \<^verbatim>\<open>{{.Field}}\<close>, and
  \<^verbatim>\<open>{{.ExistingRDataValue i j}}\<close> with decimal integer literals. An action that is
  never closed is a parse error; any other action is \<open>Unmodelled\<close>.
\<close>

datatype segment = TextSeg string | ActionSeg string

datatype node = TextNode string | FieldNode string | ExistingRDataValueNode int int

fun lexText :: "string \<Rightarrow> string \<Rightarrow> segment list option"
  and lexInsideAction :: "string \<Rightarrow> string \<Rightarrow> segment list option" where
  "lexText acc [] = Some [TextSeg (rev acc)]"
| "lexText acc [x] = Some [TextSeg (rev (x # acc))]"
| "lexText acc (x # y # s) =
     (if x = CHR ''{'' \<and> y = CHR ''{''
      then map_option (Cons (TextSeg (rev acc))) (lexInsideAction [] s)
      else lexText (x # acc) (y # s))"
| "lexInsideAction acc [] = None"
| "lexInsideAction acc [x] = None"
| "lexInsideAction acc (x # y # s) =
     (if x = CHR ''}'' \<and> y = CHR ''}''
      then map_option (Cons (ActionSeg (rev acc))) (lexText [] s)
      else lexInsideAction (x # acc) (y # s))"

fun words :: "string \<Rightarrow> string \<Rightarrow> string list" where
  "words acc [] = (if acc = [] then [] else [rev acc])"
| "words acc (c # s) =
     (if c = CHR '' ''
      then (if acc = [] then words [] s else rev acc # words [] s)
      else words (c # acc) s)"

fun digits :: "nat \<Rightarrow> string \<Rightarrow> nat option" where
  "digits acc [] = Some acc"
| "digits acc (c # s) =
     (let v = (of_char c :: nat)
      in if 48 \<le> v \<and> v \<le> 57 then digits (10 * acc + (v - 48)) s else None)"

definition decimal :: "string \<Rightarrow> nat option" where
  "decimal s =
     (case s of
        [] \<Rightarrow> None
      | c # r \<Rightarrow> if c = CHR ''0'' \<and> r \<noteq> [] then None else digits 0 s)"

text \<open>An integer literal that fits Go's 64-bit \<^verbatim>\<open>int\<close>.\<close>

definition intLiteral :: "string \<Rightarrow> int option" where
  "intLiteral s =
     (case (case s of
              [] \<Rightarrow> None
            | c # r \<Rightarrow> if c = CHR ''-'' then map_option (\<lambda>n. - int n) (decimal r)
                       else map_option int (decimal s)) of
        None \<Rightarrow> None
      | Some i \<Rightarrow> if - (2 ^ 63) \<le> i \<and> i < 2 ^ 63 then Some i else None)"

definition stringFields :: "string list" where
  "stringFields =
     [''InstanceID'', ''InstancePrivateIPAddress'', ''InstancePublicIPAddress'', ''HostedZoneID'']"

definition parseAction :: "string \<Rightarrow> node option" where
  "parseAction body =
     (case words [] body of
        [w] \<Rightarrow>
          (case w of
             [] \<Rightarrow> None
           | c # f \<Rightarrow> if c = CHR ''.'' \<and> f \<in> set stringFields then Some (FieldNode f) else None)
      | [w, a, b] \<Rightarrow>
          (if w = ''.ExistingRDataValue''
           then (case (intLiteral a, intLiteral b) of
                   (Some i, Some j) \<Rightarrow> Some (ExistingRDataValueNode i j)
                 | _ \<Rightarrow> None)
           else None)
      | _ \<Rightarrow> None)"

fun parseSegments :: "segment list \<Rightarrow> node list option" where
  "parseSegments [] = Some []"
| "parseSegments (TextSeg t # segs) = map_option (Cons (TextNode t)) (parseSegments segs)"
| "parseSegments (ActionSeg a # segs) =
     (case parseAction a of
        None \<Rightarrow> None
      | Some n \<Rightarrow> map_option (Cons n) (parseSegments segs))"

text \<open>\<^verbatim>\<open>template.New(name).Parse(text)\<close>.\<close>

definition Parse :: "string \<Rightarrow> node list outcome" where
  "Parse s =
     (case lexText [] s of
        None \<Rightarrow> Err TemplateParseError
      | Some segs \<Rightarrow>
          (case parseSegments segs of
             None \<Rightarrow> Unmodelled
           | Some ns \<Rightarrow> Ok ns))"

definition fieldValue :: "instanceData \<Rightarrow> string \<Rightarrow> string option" where
  "fieldValue d f =
     (if f = ''InstanceID'' then Some (InstanceID d)
      else if f = ''InstancePrivateIPAddress'' then Some (InstancePrivateIPAddress d)
      else if f = ''InstancePublicIPAddress'' then Some (InstancePublicIPAddress d)
      else if f = ''HostedZoneID'' then Some (HostedZoneID d)
      else None)"

text \<open>One node. An error of \<^verbatim>\<open>ExistingRDataValue\<close> becomes an error of the execution; a
  panic inside it is passed on, as the \<^verbatim>\<open>text/template\<close> of the source's time did (later
  versions of Go return it as an error of \<^verbatim>\<open>Execute\<close>).\<close>

definition execNode :: "awsClient \<Rightarrow> instanceData \<Rightarrow> node \<Rightarrow> string outcome \<times> lookup list" where
  "execNode c d n =
     (case n of
        TextNode t \<Rightarrow> (Ok t, [])
      | FieldNode f \<Rightarrow> (case fieldValue d f of Some v \<Rightarrow> (Ok v, []) | None \<Rightarrow> (Unmodelled, []))
      | ExistingRDataValueNode i j \<Rightarrow>
          (case ExistingRDataValue c d i j of
             (Err e, ls) \<Rightarrow> (Err (TemplateExecError e), ls)
           | r \<Rightarrow> r))"

text \<open>\<^verbatim>\<open>Execute\<close>: the nodes run from left to right and the first failure ends the run;
  the output buffer of a failed run is dropped by the caller.\<close>

fun Execute :: "awsClient \<Rightarrow> instanceData \<Rightarrow> node list \<Rightarrow> string outcome \<times> lookup list" where
  "Execute c d [] = (Ok [], [])"
| "Execute c d (n # ns) =
     (case execNode c d n of
        (Ok s, ls) \<Rightarrow>
          (case Execute c d ns of
             (Ok s', ls') \<Rightarrow> (Ok (s @ s'), ls @ ls')
           | (r, ls') \<Rightarrow> (r, ls @ ls'))
      | r \<Rightarrow> r)"

section \<open>Writing the template fields\<close>

text \<open>The template strings of a batch, by the names the source gives their templates:
  \<^verbatim>\<open>RR Set #n .Name\<close> and \<^verbatim>\<open>RR Set #n .Records.Value #x\<close>.\<close>

datatype field_id = NameField nat | ValueField nat nat

text \<open>\<^verbatim>\<open>d.Batch[n].ResourceRecordSet\<close>, read through the pointers; \<open>None\<close> is a
  \<^verbatim>\<open>nil\<close> dereference.\<close>

definition recordSet :: "batch \<Rightarrow> nat \<Rightarrow> ResourceRecordSet option" where
  "recordSet b n =
     (if n < length b
      then (case b ! n of None \<Rightarrow> None | Some rrSet \<Rightarrow> ResourceRecordSet rrSet)
      else None)"

text \<open>\<^verbatim>\<open>len(rrSet.ResourceRecordSet.ResourceRecords)\<close>, the range of the inner loop.\<close>

definition valueCount :: "batch \<Rightarrow> nat \<Rightarrow> nat" where
  "valueCount b n = (case recordSet b n of None \<Rightarrow> 0 | Some rs \<Rightarrow> length (ResourceRecords rs))"

text \<open>\<^verbatim>\<open>*rrSet.ResourceRecordSet.Name\<close> and \<^verbatim>\<open>*resourceRecord.Value\<close>.\<close>

fun readField :: "batch \<Rightarrow> field_id \<Rightarrow> string option" where
  "readField b (NameField n) =
     (case recordSet b n of None \<Rightarrow> None | Some rs \<Rightarrow> Name rs)"
| "readField b (ValueField n x) =
     (case recordSet b n of
        None \<Rightarrow> None
      | Some rs \<Rightarrow>
          (if x < length (ResourceRecords rs)
           then (case ResourceRecords rs ! x of None \<Rightarrow> None | Some resourceRecord \<Rightarrow> Value resourceRecord)
           else None))"

definition updateRecordSet :: "batch \<Rightarrow> nat \<Rightarrow> (ResourceRecordSet \<Rightarrow> ResourceRecordSet) \<Rightarrow> batch" where
  "updateRecordSet b n f =
     b[n := map_option (\<lambda>rrSet. rrSet\<lparr>ResourceRecordSet := map_option f (ResourceRecordSet rrSet)\<rparr>)
              (b ! n)]"

text \<open>The assignments \<^verbatim>\<open>rrSet.ResourceRecordSet.Name = ...\<close> and
  \<^verbatim>\<open>resourceRecord.Value = ...\<close>, which change the \<^verbatim>\<open>Change\<close> objects that
  \<^verbatim>\<open>d.Batch\<close> and the caller's \<^verbatim>\<open>args.Changes\<close> share.\<close>

fun writeField :: "batch \<Rightarrow> field_id \<Rightarrow> string \<Rightarrow> batch" where
  "writeField b (NameField n) s = updateRecordSet b n (\<lambda>rs. rs\<lparr>Name := Some s\<rparr>)"
| "writeField b (ValueField n x) s =
     updateRecordSet b n
       (\<lambda>rs. rs\<lparr>ResourceRecords :=
                 (ResourceRecords rs)[x := map_option (\<lambda>resourceRecord. resourceRecord\<lparr>Value := Some s\<rparr>)
                                              (ResourceRecords rs ! x)]\<rparr>)"

text \<open>One template of the batch, parsed and executed: which field, the text parsed, the
  lookups its execution made, and what the execution produced.\<close>

record render =
  field :: field_id
  template :: string
  lookups :: "lookup list"
  rendered :: "string outcome"

definition renderField :: "awsClient \<Rightarrow> instanceData \<Rightarrow> field_id \<Rightarrow> string \<Rightarrow> render" where
  "renderField c d fid source =
     (case Parse source of
        Ok t \<Rightarrow>
          (case Execute c d t of
             (r, ls) \<Rightarrow> \<lparr>field = fid, template = source, lookups = ls, rendered = r\<rparr>)
      | Err e \<Rightarrow> \<lparr>field = fid, template = source, lookups = [], rendered = Err e\<rparr>
      | Panic \<Rightarrow> \<lparr>field = fid, template = source, lookups = [], rendered = Panic\<rparr>
      | Unmodelled \<Rightarrow> \<lparr>field = fid, template = source, lookups = [], rendered = Unmodelled\<rparr>)"

definition failed :: "string outcome \<Rightarrow> unit outcome" where
  "failed r = (case r of Ok s \<Rightarrow> Ok () | Err e \<Rightarrow> Err e | Panic \<Rightarrow> Panic | Unmodelled \<Rightarrow> Unmodelled)"

text \<open>The inner loop over \<^verbatim>\<open>rrSet.ResourceRecordSet.ResourceRecords\<close> of entry \<open>n\<close>.\<close>

fun writeValues ::
  "awsClient \<Rightarrow> instanceData \<Rightarrow> nat \<Rightarrow> nat list \<Rightarrow> unit outcome \<times> instanceData \<times> render list" where
  "writeValues c d n [] = (Ok (), d, [])"
| "writeValues c d n (x # xs) =
     (case readField (Batch d) (ValueField n x) of
        None \<Rightarrow> (Panic, d, [])
      | Some source \<Rightarrow>
          (let r = renderField c d (ValueField n x) source
           in case rendered r of
                Ok s \<Rightarrow>
                  (case writeValues c (d\<lparr>Batch := writeField (Batch d) (ValueField n x) s\<rparr>) n xs of
                     (res, d', rs) \<Rightarrow> (res, d', r # rs))
              | bad \<Rightarrow> (failed bad, d, [r])))"

text \<open>The body of the outer loop for entry \<open>n\<close>: the name, then the values, then the log
  line, which dereferences \<^verbatim>\<open>TTL\<close> and \<^verbatim>\<open>Type\<close>.\<close>

definition writeEntry ::
  "awsClient \<Rightarrow> instanceData \<Rightarrow> nat \<Rightarrow> unit outcome \<times> instanceData \<times> render list" where
  "writeEntry c d n =
     (case readField (Batch d) (NameField n) of
        None \<Rightarrow> (Panic, d, [])
      | Some source \<Rightarrow>
          (let r = renderField c d (NameField n) source
           in case rendered r of
                Ok s \<Rightarrow>
                  (let d1 = d\<lparr>Batch := writeField (Batch d) (NameField n) s\<rparr>
                   in case writeValues c d1 n [0..<valueCount (Batch d1) n] of
                        (Ok u, d2, rs) \<Rightarrow>
                          (case recordSet (Batch d2) n of
                             None \<Rightarrow> (Panic, d2, r # rs)
                           | Some rset \<Rightarrow>
                               (if TTL rset = None \<or> Type rset = None
                                then (Panic, d2, r # rs)
                                else (Ok (), d2, r # rs)))
                      | (res, d2, rs) \<Rightarrow> (res, d2, r # rs))
              | bad \<Rightarrow> (failed bad, d, [r])))"

fun writeEntries ::
  "awsClient \<Rightarrow> instanceData \<Rightarrow> nat list \<Rightarrow> unit outcome \<times> instanceData \<times> render list" where
  "writeEntries c d [] = (Ok (), d, [])"
| "writeEntries c d (n # ns) =
     (case writeEntry c d n of
        (Ok u, d1, rs) \<Rightarrow>
          (case writeEntries c d1 ns of (res, d2, rs') \<Rightarrow> (res, d2, rs @ rs'))
      | bad \<Rightarrow> bad)"

definition WriteTemplateFields ::
  "awsClient \<Rightarrow> instanceData \<Rightarrow> unit outcome \<times> instanceData \<times> render list" where
  "WriteTemplateFields c d = writeEntries c d [0..<length (Batch d)]"

section \<open>Decoding the event\<close>

text \<open>\<^verbatim>\<open>encoding/json\<close> is a library outside the repository: the three uses of
  \<^verbatim>\<open>json.Unmarshal\<close> are parameters of the model.\<close>

record jsonDecoder =
  unmarshalEvent :: "string \<Rightarrow> error + eventNotification"
  unmarshalMessage :: "string \<Rightarrow> error + snsMessage"
  unmarshalMetadata :: "string \<Rightarrow> error + messageArgs"

definition parseOuterEvent :: "jsonDecoder \<Rightarrow> string \<Rightarrow> error + eventNotification" where
  "parseOuterEvent j raw = unmarshalEvent j raw"

definition parseInnerSNSMessage :: "jsonDecoder \<Rightarrow> string \<Rightarrow> error + snsMessage" where
  "parseInnerSNSMessage j raw = unmarshalMessage j raw"

definition parseSNSMetadata :: "jsonDecoder \<Rightarrow> string \<Rightarrow> error + messageArgs" where
  "parseSNSMetadata j raw = unmarshalMetadata j raw"

definition emptyArgs :: messageArgs where
  "emptyArgs = \<lparr>messageArgs.HostedZoneID = [], Changes = []\<rparr>"

definition parseFullEvent :: "jsonDecoder \<Rightarrow> string \<Rightarrow> error + snsMessage \<times> messageArgs" where
  "parseFullEvent j raw =
     (case parseOuterEvent j raw of
        Inl e \<Rightarrow> Inl e
      | Inr parsedEvent \<Rightarrow>
          (if length (Records parsedEvent) < 1 then Inl NoRecords
           else
             (case parseInnerSNSMessage j (Message (Sns (Records parsedEvent ! 0))) of
                Inl e \<Rightarrow> Inl e
              | Inr parsedMessage \<Rightarrow>
                  (if Event parsedMessage = ''autoscaling:TEST_NOTIFICATION''
                   then Inr (parsedMessage, emptyArgs)
                   else
                     (case parseSNSMetadata j (NotificationMetadata parsedMessage) of
                        Inl e \<Rightarrow> Inl e
                      | Inr parsedMetadata \<Rightarrow> Inr (parsedMessage, parsedMetadata))))))"

section \<open>The handler\<close>

text \<open>The requests an invocation sends and the templates it renders, in order.\<close>

datatype event =
    DescribeInstancesCall string
  | TemplateRender render
  | ChangeResourceRecordSetsCall string batch
  | WaitCall string
  | CompleteLifecycleActionCall CompleteLifecycleActionInput

text \<open>What an invocation runs in: the JSON decoder, the result of
  \<^verbatim>\<open>session.NewSession()\<close>, and the services behind the connections.\<close>

record process =
  decoder :: jsonDecoder
  NewSession :: "error option"
  services :: awsClient

definition newAWSClient :: "process \<Rightarrow> awsClient outcome" where
  "newAWSClient p =
     (case NewSession p of
        Some e \<Rightarrow> Err (SessionError e)
      | None \<Rightarrow> Ok (services p))"

definition syncWaiterConfig :: waiterConfig where
  "syncWaiterConfig =
     \<lparr>Operation = ''GetChange'', Delay = 5, MaxAttempts = 24,
      Acceptors = [\<lparr>State = ''success'', Matcher = ''path'',
                    Argument = ''ChangeInfo.Status'', Expected = ''INSYNC''\<rparr>]\<rparr>"

text \<open>The goroutine that logs the elapsed time while waiting changes no result and is left
  out.\<close>

definition WaitForRoute53Sync :: "awsClient \<Rightarrow> string \<Rightarrow> error option" where
  "WaitForRoute53Sync c changeID = WaiterWait c syncWaiterConfig changeID"

definition SendRoute53ChangeBatch ::
  "awsClient \<Rightarrow> string \<Rightarrow> batch \<Rightarrow> error option \<times> event list" where
  "SendRoute53ChangeBatch c zoneID b =
     (case ChangeResourceRecordSets c zoneID b of
        Inl e \<Rightarrow> (Some (SendBatchError e), [ChangeResourceRecordSetsCall zoneID b])
      | Inr changeID \<Rightarrow>
          (WaitForRoute53Sync c changeID,
           [ChangeResourceRecordSetsCall zoneID b, WaitCall changeID]))"

definition lifecycleInput :: "snsMessage \<Rightarrow> string \<Rightarrow> CompleteLifecycleActionInput" where
  "lifecycleInput messageData result =
     \<lparr>AutoScalingGroupName = snsMessage.AutoScalingGroupName messageData,
      InstanceId = EC2InstanceID messageData,
      LifecycleActionResult = result,
      LifecycleActionToken = snsMessage.LifecycleActionToken messageData,
      LifecycleHookName = snsMessage.LifecycleHookName messageData\<rparr>"

definition CompleteAutoscalingAction ::
  "awsClient \<Rightarrow> snsMessage \<Rightarrow> string \<Rightarrow> error option \<times> event list" where
  "CompleteAutoscalingAction c messageData result =
     (CompleteLifecycleAction c (lifecycleInput messageData result),
      [CompleteLifecycleActionCall (lifecycleInput messageData result)])"

text \<open>\<open>handle\<close> returns \<open>Ok ()\<close> for Go's \<^verbatim>\<open>(nil, nil)\<close> and \<open>Err e\<close> for
  \<^verbatim>\<open>(nil, err)\<close>. The batch sent is \<^verbatim>\<open>args.Changes\<close>, whose \<^verbatim>\<open>Change\<close> objects
  are the ones \<^verbatim>\<open>WriteTemplateFields\<close> has written to.\<close>

definition handle :: "process \<Rightarrow> string \<Rightarrow> unit outcome \<times> event list" where
  "handle p evt =
     (case parseFullEvent (decoder p) evt of
        Inl e \<Rightarrow> (Err e, [])
      | Inr (message, args) \<Rightarrow>
          (case newAWSClient p of
             Ok client \<Rightarrow>
               (if Event message = ''autoscaling:TEST_NOTIFICATION'' then (Ok (), [])
                else
                  (case populate client (EC2InstanceID message)
                          (messageArgs.HostedZoneID args) (Changes args) of
                     Ok data \<Rightarrow>
                       (case WriteTemplateFields client data of
                          (Ok u, data', rs) \<Rightarrow>
                            (case SendRoute53ChangeBatch client (messageArgs.HostedZoneID args)
                                    (Batch data') of
                               (Some e, evs) \<Rightarrow>
                                 (Ok (),
                                  DescribeInstancesCall (EC2InstanceID message)
                                    # map TemplateRender rs @ evs
                                    @ snd (CompleteAutoscalingAction client message ''ABANDON''))
                             | (None, evs) \<Rightarrow>
                                 (Ok (),
                                  DescribeInstancesCall (EC2InstanceID message)
                                    # map TemplateRender rs @ evs
                                    @ snd (CompleteAutoscalingAction client message ''CONTINUE'')))
                        | (bad, data', rs) \<Rightarrow>
                            (bad, DescribeInstancesCall (EC2InstanceID message)
                                    # map TemplateRender rs))
                   | Err e \<Rightarrow> (Err e, [DescribeInstancesCall (EC2InstanceID message)])
                   | Panic \<Rightarrow> (Panic, [DescribeInstancesCall (EC2InstanceID message)])
                   | Unmodelled \<Rightarrow> (Unmodelled, [DescribeInstancesCall (EC2InstanceID message)])))
           | Err e \<Rightarrow> (Err e, [])
           | Panic \<Rightarrow> (Panic, [])
           | Unmodelled \<Rightarrow> (Unmodelled, [])))"

section \<open>The test stubs\<close>

text \<open>The services of \<^verbatim>\<open>teststubs\<close>: a fixed running instance, and a failure for the
  instance id, zone id, change id or result \<^verbatim>\<open>bad\<close>. The stubs have no listing of
  record sets; \<open>stubListing\<close> stands in for one.\<close>

definition testEC2Reservation :: Reservation where
  "testEC2Reservation =
     \<lparr>Instances = [\<lparr>Instance.InstanceId = Some ''i-123456789'',
                     PrivateIpAddress = Some ''10.0.0.1'',
                     PublicIpAddress = Some ''54.0.0.1''\<rparr>]\<rparr>"

definition testDescribeInstances :: "string list \<Rightarrow> error + Reservation list" where
  "testDescribeInstances ids =
     (if hd ids = ''bad'' then Inl (LibraryError ''error'') else Inr [testEC2Reservation])"

definition testChangeResourceRecordSets :: "string \<Rightarrow> batch \<Rightarrow> error + string" where
  "testChangeResourceRecordSets zoneID b =
     (if zoneID = ''bad'' then Inl (LibraryError ''error'') else Inr ''CHANGE123435'')"

definition testCompleteLifecycleAction :: "CompleteLifecycleActionInput \<Rightarrow> error option" where
  "testCompleteLifecycleAction input =
     (if LifecycleActionResult input = ''bad'' then Some (LibraryError ''error'') else None)"

text \<open>What the tests expect of the wait on the stubbed \<^verbatim>\<open>GetChange\<close>: an error for
  the change id \<^verbatim>\<open>bad\<close>, and none otherwise.\<close>

definition testWait :: "waiterConfig \<Rightarrow> string \<Rightarrow> error option" where
  "testWait cfg changeID =
     (if changeID = ''bad'' then Some (LibraryError ''error'') else None)"

definition testAwsClient ::
  "(ListResourceRecordSetsInput \<Rightarrow> error + ResourceRecordSet list) \<Rightarrow> awsClient" where
  "testAwsClient stubListing =
     \<lparr>DescribeInstances = testDescribeInstances,
      ListResourceRecordSets = stubListing,
      ChangeResourceRecordSets = testChangeResourceRecordSets,
      WaiterWait = testWait,
      CompleteLifecycleAction = testCompleteLifecycleAction\<rparr>"

definition upsert :: "string \<Rightarrow> string \<Rightarrow> string list \<Rightarrow> Change option" where
  "upsert name rrType vals =
     Some \<lparr>Action = Some ''UPSERT'',
           ResourceRecordSet =
             Some \<lparr>Name = Some name, Type = Some rrType, TTL = Some 3600,
                   ResourceRecords = map (\<lambda>v. Some \<lparr>Value = Some v\<rparr>) vals\<rparr>\<rparr>"

definition testBatch :: batch where
  "testBatch =
     [upsert ''{{.InstanceID}}.example.com.'' ''A'' [''{{.InstancePublicIPAddress}}''],
      upsert ''www.example.com.'' ''CNAME'' [''{{.InstanceID}}.example.com.'']]"

text \<open>Listings for the lookups: one that answers any request with a record set of another
  name and type, as a listing that starts at a missing name does, and one that answers with
  a record set of the requested name and type.\<close>

definition otherListing :: "ListResourceRecordSetsInput \<Rightarrow> error + ResourceRecordSet list" where
  "otherListing input =
     Inr [\<lparr>Name = Some ''zzz.example.com.'', Type = Some ''TXT'', TTL = Some 60,
           ResourceRecords = [Some \<lparr>Value = Some ''unrelated''\<rparr>]\<rparr>]"

definition oneRecord :: "ListResourceRecordSetsInput \<Rightarrow> error + ResourceRecordSet list" where
  "oneRecord input =
     Inr [\<lparr>Name = Some (StartRecordName input), Type = Some (StartRecordType input),
           TTL = Some 60, ResourceRecords = [Some \<lparr>Value = Some ''192.0.2.7''\<rparr>]\<rparr>]"

definition emptyData :: instanceData where
  "emptyData =
     \<lparr>HostedZoneID = ''ABCDEF0123456789'', Batch = [], InstanceID = ''i-123456789'',
      InstancePrivateIPAddress = [], InstancePublicIPAddress = []\<rparr>"

text \<open>The data of the running test instance with the test batch, and the batch with
  every template replaced by what it renders to.\<close>

definition scenarioData :: instanceData where
  "scenarioData =
     \<lparr>HostedZoneID = ''ABCDEF0123456789'', Batch = testBatch, InstanceID = ''i-123456789'',
      InstancePrivateIPAddress = ''10.0.0.1'', InstancePublicIPAddress = ''54.0.0.1''\<rparr>"

definition renderedBatch :: batch where
  "renderedBatch =
     [upsert ''i-123456789.example.com.'' ''A'' [''54.0.0.1''],
      upsert ''www.example.com.'' ''CNAME'' [''i-123456789.example.com.'']]"

text \<open>An instance that is terminating: the private address is empty and the public one is
  missing.\<close>

definition terminatedDescribeInstances :: "string list \<Rightarrow> error + Reservation list" where
  "terminatedDescribeInstances ids =
     Inr [\<lparr>Instances = [\<lparr>Instance.InstanceId = Some ''i-123456789'',
                          PrivateIpAddress = Some [], PublicIpAddress = None\<rparr>]\<rparr>]"

definition terminatedClient :: awsClient where
  "terminatedClient = (testAwsClient oneRecord)\<lparr>DescribeInstances := terminatedDescribeInstances\<rparr>"

text \<open>A lifecycle message as in \<^verbatim>\<open>testMessageJSON\<close>, with an event kind and metadata,
  the metadata of \<^verbatim>\<open>testMetadataJSON\<close>, and a decoder that fails on three inputs, decodes
  \<^verbatim>\<open>null\<close> to an envelope without records, and otherwise answers with them.\<close>

definition testMessage :: snsMessage where
  "testMessage =
     \<lparr>Event = ''autoscaling:EC2_INSTANCE_LAUNCHING'', EC2InstanceID = ''i-123456789'',
      snsMessage.AutoScalingGroupName = ''ASGName'', snsMessage.LifecycleHookName = ''Lifecycle'',
      snsMessage.LifecycleActionToken = ''Token'', NotificationMetadata = ''metadata''\<rparr>"

definition testMetadata :: messageArgs where
  "testMetadata = \<lparr>messageArgs.HostedZoneID = ''ABCDEF0123456789'', Changes = testBatch\<rparr>"

definition stubDecoder :: "snsMessage \<Rightarrow> messageArgs \<Rightarrow> jsonDecoder" where
  "stubDecoder message args =
     \<lparr>unmarshalEvent =
        (\<lambda>raw. if raw = ''{'' then Inl (LibraryError ''unexpected end of JSON input'')
               else if raw = ''null'' then Inr \<lparr>Records = []\<rparr>
               else Inr \<lparr>Records = [\<lparr>Sns = \<lparr>Message = raw\<rparr>\<rparr>]\<rparr>),
      unmarshalMessage =
        (\<lambda>raw. if raw = ''[]'' then Inl (LibraryError ''cannot unmarshal array'')
               else Inr message),
      unmarshalMetadata =
        (\<lambda>raw. if raw = [] then Inl (LibraryError ''unexpected end of JSON input'')
               else Inr args)\<rparr>"

definition testProcess :: "snsMessage \<Rightarrow> messageArgs \<Rightarrow> process" where
  "testProcess message args =
     \<lparr>decoder = stubDecoder message args, NewSession = None,
      services = testAwsClient oneRecord\<rparr>"



text \<open>Batches for the lookups: one of three entries, where the values of entries 0 and 1
  ask for the existing value of entry 0 and the name of entry 2 asks for the existing value
  of entry 2 itself, with what it renders to; a name that asks for the existing value of
  itself; and a batch whose last template is not closed.\<close>

definition orderedBatch :: batch where
  "orderedBatch =
     [upsert ''{{.InstanceID}}.example.com.'' ''A'' [''{{.ExistingRDataValue 0 0}}''],
      upsert ''www.example.com.'' ''CNAME'' [''{{.ExistingRDataValue 0 0}}''],
      upsert ''{{.ExistingRDataValue 2 0}}'' ''TXT'' []]"

definition orderedRendered :: batch where
  "orderedRendered =
     [upsert ''i-123456789.example.com.'' ''A'' [''192.0.2.7''],
      upsert ''www.example.com.'' ''CNAME'' [''192.0.2.7''],
      upsert ''192.0.2.7'' ''TXT'' []]"

definition selfLookupBatch :: batch where
  "selfLookupBatch = [upsert ''{{.ExistingRDataValue 0 0}}'' ''A'' []]"

definition failingBatch :: batch where
  "failingBatch =
     [upsert ''{{.InstanceID}}.example.com.'' ''A'' [''{{.InstancePublicIPAddress}}''],
      upsert ''www.example.com.'' ''CNAME'' [''{{.InstanceID'']]"

section \<open>The order of the template fields\<close>

text \<open>The loops of \<^verbatim>\<open>WriteTemplateFields\<close> as one loop over a list of fields: each field
  is read, rendered and written back, and the first failure ends the loop. It differs from
  the source's loops only in the log line, which can panic.\<close>

fun renderFields ::
  "awsClient \<Rightarrow> instanceData \<Rightarrow> field_id list \<Rightarrow> unit outcome \<times> instanceData \<times> render list" where
  "renderFields c d [] = (Ok (), d, [])"
| "renderFields c d (f # fs) =
     (case readField (Batch d) f of
        None \<Rightarrow> (Panic, d, [])
      | Some source \<Rightarrow>
          (let r = renderField c d f source
           in case rendered r of
                Ok s \<Rightarrow>
                  (case renderFields c (d\<lparr>Batch := writeField (Batch d) f s\<rparr>) fs of
                     (res, d', rs) \<Rightarrow> (res, d', r # rs))
              | bad \<Rightarrow> (failed bad, d, [r])))"

text \<open>The fields of entry \<open>n\<close> and of the whole batch, in the order of the source's loops:
  by ascending entry, the name before the values, the values by ascending index.\<close>

definition entryFields :: "batch \<Rightarrow> nat \<Rightarrow> field_id list" where
  "entryFields b n = NameField n # map (ValueField n) [0..<valueCount b n]"

definition allFields :: "batch \<Rightarrow> field_id list" where
  "allFields b = concat (map (entryFields b) [0..<length b])"

text \<open>The fields that a run has written: those of its successful renders.\<close>

definition isOk :: "'a outcome \<Rightarrow> bool" where
  "isOk r = (case r of Ok v \<Rightarrow> True | _ \<Rightarrow> False)"

definition written :: "render list \<Rightarrow> field_id list" where
  "written rs = map field (filter (\<lambda>r. isOk (rendered r)) rs)"

text \<open>\<open>before f g\<close>: field \<open>f\<close> comes earlier than \<open>g\<close> in that order.\<close>

fun entryOf :: "field_id \<Rightarrow> nat" where
  "entryOf (NameField n) = n"
| "entryOf (ValueField n x) = n"

fun before :: "field_id \<Rightarrow> field_id \<Rightarrow> bool" where
  "before (NameField i) (NameField j) = (i < j)"
| "before (NameField i) (ValueField j y) = (i \<le> j)"
| "before (ValueField i x) (NameField j) = (i < j)"
| "before (ValueField i x) (ValueField j y) = (i < j \<or> (i = j \<and> x < y))"

section \<open>Waiting for the change to propagate\<close>


text \<open>Modelled from the spec: a reported status is the fully propagated one when a success
  acceptor of the configuration expects it.\<close>

definition accepted :: "waiterConfig \<Rightarrow> string \<Rightarrow> bool" where
  "accepted cfg status =
     list_ex (\<lambda>a. State a = ''success'' \<and> Matcher a = ''path'' \<and> Expected a = status)
       (Acceptors cfg)"






section \<open>Reading the events of an invocation\<close>

text \<open>The lifecycle results an invocation sent, and the batches it submitted.\<close>

fun signals :: "event list \<Rightarrow> CompleteLifecycleActionInput list" where
  "signals [] = []"
| "signals (CompleteLifecycleActionCall i # es) = i # signals es"
| "signals (e # es) = signals es"

fun submissions :: "event list \<Rightarrow> (string \<times> batch) list" where
  "submissions [] = []"
| "submissions (ChangeResourceRecordSetsCall z b # es) = (z, b) # submissions es"
| "submissions (e # es) = submissions es"

lemma signals_append [simp]: "signals (xs @ ys) = signals xs @ signals ys"
  by (induction xs rule: signals.induct) simp_all

lemma submissions_append [simp]: "submissions (xs @ ys) = submissions xs @ submissions ys"
  by (induction xs rule: submissions.induct) simp_all

lemma signals_renders [simp]: "signals (map TemplateRender rs) = []"
  by (induction rs) simp_all

lemma submissions_renders [simp]: "submissions (map TemplateRender rs) = []"
  by (induction rs) simp_all

section \<open>The existing-record lookup\<close>

lemma FindRoute53ResourceRecord_first_entry:
  "ListResourceRecordSets c \<lparr>HostedZoneId = zoneID, MaxItems = ''1'',
       StartRecordName = name, StartRecordType = rrType\<rparr> = Inr (s # rest) \<Longrightarrow>
   FindRoute53ResourceRecord c zoneID name rrType = Ok (ResourceRecords s)"
  by (simp add: FindRoute53ResourceRecord_def)

text \<open>
  C2. The lookup asks the listing for one record set starting at the name and type and
  fails when the listing is empty, but it never compares the first entry with the name and
  type it asked for: here the listing answers with a TXT record set of another name, and
  the lookup for the A record of \<^verbatim>\<open>i-123456789.example.com.\<close> returns that record
  set's values instead of failing.
\<close>

theorem lookup_returns_unrelated_record:
  "FindRoute53ResourceRecord (testAwsClient otherListing) ''ABCDEF0123456789''
     ''i-123456789.example.com.'' ''A'' = Ok [Some \<lparr>Value = Some ''unrelated''\<rparr>]"
  by (simp add: FindRoute53ResourceRecord_def testAwsClient_def otherListing_def)

text \<open>
  C9. With a negative set index the guard \<^verbatim>\<open>len(d.Batch)-1 < rrSetIndex\<close> is false for
  every batch, the empty one included, and the call panics at the slice index without
  making a lookup. With a set index in range, a record set that has a name and a type, and
  a successful lookup, a negative value index passes the second guard in the same way and
  the call panics at the index into the values.
\<close>

theorem negative_index_panics:
  "(rrSetIndex < 0 \<longrightarrow>
      \<not> int (length (Batch d)) - 1 < rrSetIndex \<and>
      ExistingRDataValue c d rrSetIndex rDataIndex = (Panic, []))
   \<and> (index (Batch d) rrSetIndex = Some (Some rrSet) \<and> ResourceRecordSet rrSet = Some rs \<and>
       Name rs = Some name \<and> Type rs = Some rrType \<and>
       FindRoute53ResourceRecord c (HostedZoneID d) name rrType = Ok rData \<and> rDataIndex < 0 \<longrightarrow>
      \<not> int (length rData) - 1 < rDataIndex \<and>
      ExistingRDataValue c d rrSetIndex rDataIndex = (Panic, [Lookup rrSetIndex name rrType]))"
  by (auto simp add: ExistingRDataValue_def index_def)

theorem negative_index_panics_witness:
  "(-1::int) < 0 \<and> ExistingRDataValue (testAwsClient oneRecord) emptyData (-1) 0 = (Panic, [])
   \<and> ExistingRDataValue (testAwsClient oneRecord)
         (emptyData\<lparr>Batch := [upsert ''a.example.com.'' ''A'' []]\<rparr>) 0 (-1)
       = (Panic, [Lookup 0 ''a.example.com.'' ''A''])"
proof -
  have 1: "ExistingRDataValue (testAwsClient oneRecord) emptyData (-1) 0 = (Panic, [])"
    using negative_index_panics [of "-1" emptyData "testAwsClient oneRecord" 0] by simp
  let ?d = "emptyData\<lparr>Batch := [upsert ''a.example.com.'' ''A'' []]\<rparr>"
  let ?rs = "\<lparr>Name = Some ''a.example.com.'', Type = Some ''A'', TTL = Some 3600,
              ResourceRecords = []\<rparr>"
  have 2: "ExistingRDataValue (testAwsClient oneRecord) ?d 0 (-1)
             = (Panic, [Lookup 0 ''a.example.com.'' ''A''])"
    using negative_index_panics [of 0 ?d "testAwsClient oneRecord" "-1"
        "\<lparr>Action = Some ''UPSERT'', ResourceRecordSet = Some ?rs\<rparr>" ?rs
        "''a.example.com.''" "''A''" "[Some \<lparr>Value = Some ''192.0.2.7''\<rparr>]"]
    by (simp add: index_def upsert_def emptyData_def FindRoute53ResourceRecord_def
        testAwsClient_def oneRecord_def)
  show ?thesis using 1 2 by simp
qed

section \<open>Instance data and the scenario of the tests\<close>

lemma populate_addresses:
  "FetchEC2InstanceData c instanceID = Ok inst \<Longrightarrow>
   populate c instanceID zone b =
     Ok \<lparr>HostedZoneID = zone, Batch = b, InstanceID = instanceID,
         InstancePrivateIPAddress =
           (case PrivateIpAddress inst of None \<Rightarrow> [] | Some a \<Rightarrow> if a \<noteq> [] then a else []),
         InstancePublicIPAddress =
           (case PublicIpAddress inst of None \<Rightarrow> [] | Some a \<Rightarrow> if a \<noteq> [] then a else [])\<rparr>"
  by (simp add: populate_def Let_def split: option.splits)

lemma Parse_public:
  "Parse ''{{.InstancePublicIPAddress}}''
     = Ok [TextNode [], FieldNode ''InstancePublicIPAddress'', TextNode []]"
  by code_simp

lemma render_public:
  "rendered (renderField c d fid ''{{.InstancePublicIPAddress}}'') = Ok (InstancePublicIPAddress d)"
  by (simp add: renderField_def Parse_public execNode_def fieldValue_def)

text \<open>
  C4. For the instance \<^verbatim>\<open>i-123456789\<close> with private address \<^verbatim>\<open>10.0.0.1\<close> and public
  address \<^verbatim>\<open>54.0.0.1\<close> and the batch of two UPSERT changes of the tests, the instance
  data is populated, writing the template fields succeeds, and the batch then holds the
  name \<^verbatim>\<open>i-123456789.example.com.\<close> and the value \<^verbatim>\<open>54.0.0.1\<close> in record 0 and the
  value \<^verbatim>\<open>i-123456789.example.com.\<close> in record 1.
\<close>

theorem scenario_A_rendered:
  "populate (testAwsClient oneRecord) ''i-123456789'' ''ABCDEF0123456789'' testBatch = Ok scenarioData
   \<and> fst (WriteTemplateFields (testAwsClient oneRecord) scenarioData) = Ok ()
   \<and> Batch (fst (snd (WriteTemplateFields (testAwsClient oneRecord) scenarioData))) = renderedBatch
   \<and> readField renderedBatch (NameField 0) = Some ''i-123456789.example.com.''
   \<and> readField renderedBatch (ValueField 0 0) = Some ''54.0.0.1''
   \<and> readField renderedBatch (ValueField 1 0) = Some ''i-123456789.example.com.''"
  by code_simp

text \<open>
  C5. When the instance is found, the private and the public address of the instance data
  are the instance's attributes where these are present and not empty, and the empty string
  otherwise. For an instance without a public address the template
  \<^verbatim>\<open>{{.InstancePublicIPAddress}}\<close> renders to the empty string, not to an error.
\<close>

theorem addresses_default_to_empty:
  "(FetchEC2InstanceData c instanceID = Ok inst \<longrightarrow>
      populate c instanceID zone b =
        Ok \<lparr>HostedZoneID = zone, Batch = b, InstanceID = instanceID,
            InstancePrivateIPAddress =
              (case PrivateIpAddress inst of None \<Rightarrow> [] | Some a \<Rightarrow> if a \<noteq> [] then a else []),
            InstancePublicIPAddress =
              (case PublicIpAddress inst of None \<Rightarrow> [] | Some a \<Rightarrow> if a \<noteq> [] then a else [])\<rparr>)
   \<and> (FetchEC2InstanceData c instanceID = Ok inst \<and> PublicIpAddress inst = None \<and>
        populate c instanceID zone b = Ok d \<longrightarrow>
        InstancePublicIPAddress d = [] \<and>
        rendered (renderField c d fid ''{{.InstancePublicIPAddress}}'') = Ok [])"
  by (auto simp add: populate_addresses render_public)

theorem addresses_default_to_empty_witness:
  "populate terminatedClient ''i-123456789'' ''ABCDEF0123456789'' [] = Ok emptyData
   \<and> rendered (renderField terminatedClient emptyData (ValueField 0 0)
        ''{{.InstancePublicIPAddress}}'') = Ok []"
proof -
  let ?i = "\<lparr>Instance.InstanceId = Some ''i-123456789'', PrivateIpAddress = Some [],
             PublicIpAddress = None\<rparr>"
  have 1: "FetchEC2InstanceData terminatedClient ''i-123456789'' = Ok ?i"
    by code_simp
  have 2: "PublicIpAddress ?i = None" by simp
  have 3: "populate terminatedClient ''i-123456789'' ''ABCDEF0123456789'' [] = Ok emptyData"
    using addresses_default_to_empty [where c = terminatedClient and instanceID = "''i-123456789''"
        and inst = ?i and zone = "''ABCDEF0123456789''" and b = "[]"] 1
    by (simp add: emptyData_def)
  show ?thesis
    using addresses_default_to_empty [where c = terminatedClient and instanceID = "''i-123456789''"
        and inst = ?i and zone = "''ABCDEF0123456789''" and b = "[]" and d = emptyData
        and fid = "ValueField 0 0"] 1 2 3
    by simp
qed

section \<open>The handler's outcomes\<close>

lemma parseFullEvent_test:
  assumes "unmarshalEvent j evt = Inr ev" and "Records ev \<noteq> []"
    and "unmarshalMessage j (Message (Sns (Records ev ! 0))) = Inr message"
    and "Event message = ''autoscaling:TEST_NOTIFICATION''"
  shows "parseFullEvent j evt = Inr (message, emptyArgs)"
  using assms by (simp add: parseFullEvent_def parseOuterEvent_def parseInnerSNSMessage_def)

text \<open>
  C8. For a payload that decodes to a message of the event kind
  \<^verbatim>\<open>autoscaling:TEST_NOTIFICATION\<close>, decoding does not depend on the metadata decoder and
  yields the empty arguments, and the handler sends no request, renders no template and
  sends no lifecycle result. It returns without an error when the AWS session is set up,
  which happens before the event kind is looked at; when setting up the session fails it
  returns that error.
\<close>

theorem test_notification_stops:
  assumes "unmarshalEvent (decoder p) evt = Inr ev" and "Records ev \<noteq> []"
    and "unmarshalMessage (decoder p) (Message (Sns (Records ev ! 0))) = Inr message"
    and "Event message = ''autoscaling:TEST_NOTIFICATION''"
  shows "parseFullEvent ((decoder p)\<lparr>unmarshalMetadata := f\<rparr>) evt = Inr (message, emptyArgs)
     \<and> handle p evt =
         (case NewSession p of None \<Rightarrow> (Ok (), []) | Some e \<Rightarrow> (Err (SessionError e), []))"
proof -
  have "parseFullEvent ((decoder p)\<lparr>unmarshalMetadata := f\<rparr>) evt = Inr (message, emptyArgs)"
    using assms by (intro parseFullEvent_test [where ev = ev]) simp_all
  moreover have "parseFullEvent (decoder p) evt = Inr (message, emptyArgs)"
    using assms by (rule parseFullEvent_test)
  then have "handle p evt =
         (case NewSession p of None \<Rightarrow> (Ok (), []) | Some e \<Rightarrow> (Err (SessionError e), []))"
    using assms(4) by (simp add: handle_def newAWSClient_def split: option.splits)
  ultimately show ?thesis by simp
qed

theorem test_notification_stops_witness:
  "handle (testProcess (testMessage\<lparr>Event := ''autoscaling:TEST_NOTIFICATION''\<rparr>) testMetadata) ''{}''
     = (Ok (), [])"
proof -
  let ?m = "testMessage\<lparr>Event := ''autoscaling:TEST_NOTIFICATION''\<rparr>"
  let ?p = "testProcess ?m testMetadata"
  have 1: "unmarshalEvent (decoder ?p) ''{}'' = Inr \<lparr>Records = [\<lparr>Sns = \<lparr>Message = ''{}''\<rparr>\<rparr>]\<rparr>"
    by (simp add: testProcess_def stubDecoder_def)
  have 2: "unmarshalMessage (decoder ?p) ''{}'' = Inr ?m"
    by (simp add: testProcess_def stubDecoder_def)
  have 3: "Event ?m = ''autoscaling:TEST_NOTIFICATION''" by simp
  have 4: "NewSession ?p = None" by (simp add: testProcess_def)
  show ?thesis
    using test_notification_stops [of ?p "''{}''" "\<lparr>Records = [\<lparr>Sns = \<lparr>Message = ''{}''\<rparr>\<rparr>]\<rparr>" ?m] 1 2 3 4
    by simp
qed

text \<open>The same payload when the session cannot be set up: the invocation returns an
  error.\<close>

theorem test_notification_session_failure:
  "handle ((testProcess (testMessage\<lparr>Event := ''autoscaling:TEST_NOTIFICATION''\<rparr>) testMetadata)
             \<lparr>NewSession := Some (LibraryError ''session'')\<rparr>) ''{}''
     = (Err (SessionError (LibraryError ''session'')), [])"
  by code_simp





section \<open>Reading and writing fields\<close>

lemma recordSet_updateRecordSet:
  "recordSet (updateRecordSet b n f) m =
     (if m = n then map_option f (recordSet b n) else recordSet b m)"
  by (cases "n < length b")
     (auto simp add: recordSet_def updateRecordSet_def nth_list_update split: option.splits)

lemma length_writeField [simp]: "length (writeField b f s) = length b"
  by (cases f) (simp_all add: updateRecordSet_def)

lemma valueCount_writeField [simp]: "valueCount (writeField b f s) m = valueCount b m"
  by (cases f) (auto simp add: valueCount_def recordSet_updateRecordSet split: option.splits)

lemma readField_writeField_same:
  "readField b f = Some t \<Longrightarrow> readField (writeField b f s) f = Some s"
  by (cases f) (auto simp add: recordSet_updateRecordSet split: option.splits if_splits)

lemma readField_writeField_other:
  "f \<noteq> g \<Longrightarrow> readField (writeField b f s) g = readField b g"
  by (cases f; cases g)
     (auto simp add: recordSet_updateRecordSet nth_list_update split: option.splits)

lemma ExistingRDataValue_lookups:
  "l \<in> set (snd (ExistingRDataValue c d i j)) \<Longrightarrow>
   setIndex l = i \<and> 0 \<le> i \<and> readField (Batch d) (NameField (nat i)) = Some (lookupName l)"
  by (auto simp add: ExistingRDataValue_def index_def recordSet_def
      split: if_splits option.splits outcome.splits prod.splits)

lemma execNode_lookups:
  assumes "l \<in> set (snd (execNode c d n))"
  shows "0 \<le> setIndex l \<and> readField (Batch d) (NameField (nat (setIndex l))) = Some (lookupName l)"
proof (cases n)
  case (TextNode t)
  with assms show ?thesis by (simp add: execNode_def)
next
  case (FieldNode f)
  with assms show ?thesis by (simp add: execNode_def split: option.splits)
next
  case (ExistingRDataValueNode i j)
  obtain r ls where x: "ExistingRDataValue c d i j = (r, ls)"
    by (cases "ExistingRDataValue c d i j")
  with assms ExistingRDataValueNode have "l \<in> set ls"
    by (cases r) (simp_all add: execNode_def)
  then have "l \<in> set (snd (ExistingRDataValue c d i j))" using x by simp
  from ExistingRDataValue_lookups [OF this] show ?thesis by simp
qed

lemma Execute_lookups:
  "l \<in> set (snd (Execute c d ns)) \<Longrightarrow>
   0 \<le> setIndex l \<and> readField (Batch d) (NameField (nat (setIndex l))) = Some (lookupName l)"
proof (induction ns arbitrary: l)
  case Nil
  then show ?case by simp
next
  case (Cons n ns)
  obtain r ls where e: "execNode c d n = (r, ls)" by (cases "execNode c d n")
  obtain r' ls' where x: "Execute c d ns = (r', ls')" by (cases "Execute c d ns")
  from Cons.prems e x have "l \<in> set ls \<or> l \<in> set ls'"
    by (auto split: outcome.splits)
  then show ?case
  proof
    assume "l \<in> set ls"
    then have "l \<in> set (snd (execNode c d n))" using e by simp
    then show ?thesis by (rule execNode_lookups)
  next
    assume "l \<in> set ls'"
    then have "l \<in> set (snd (Execute c d ns))" using x by simp
    then show ?thesis by (rule Cons.IH)
  qed
qed

lemma renderField_field [simp]: "field (renderField c d fid src) = fid"
  by (simp add: renderField_def split: outcome.splits prod.splits)

lemma renderField_template [simp]: "template (renderField c d fid src) = src"
  by (simp add: renderField_def split: outcome.splits prod.splits)

lemma renderField_lookups:
  "l \<in> set (lookups (renderField c d fid src)) \<Longrightarrow>
   0 \<le> setIndex l \<and> readField (Batch d) (NameField (nat (setIndex l))) = Some (lookupName l)"
proof -
  assume a: "l \<in> set (lookups (renderField c d fid src))"
  show ?thesis
  proof (cases "Parse src")
    case (Ok t)
    obtain r ls where x: "Execute c d t = (r, ls)" by (cases "Execute c d t")
    with a Ok have "l \<in> set (snd (Execute c d t))" by (simp add: renderField_def)
    then show ?thesis by (rule Execute_lookups)
  qed (use a in \<open>simp_all add: renderField_def\<close>)
qed

declare writeField.simps [simp del] readField.simps [simp del]

section \<open>The loops of WriteTemplateFields as one loop\<close>

lemma writeValues_renderFields:
  "writeValues c d n xs = renderFields c d (map (ValueField n) xs)"
  by (induction xs arbitrary: d) (simp_all add: Let_def split: option.splits outcome.splits)

lemma renderFields_append:
  "renderFields c d (fs @ gs) =
     (case renderFields c d fs of
        (Ok u, d1, rs) \<Rightarrow>
          (case renderFields c d1 gs of (res, d2, rs') \<Rightarrow> (res, d2, rs @ rs'))
      | bad \<Rightarrow> bad)"
proof (induction fs arbitrary: d)
  case Nil
  then show ?case by (simp split: prod.splits)
next
  case (Cons f fs)
  show ?case
  proof (cases "readField (Batch d) f")
    case None
    then show ?thesis by simp
  next
    case (Some src)
    show ?thesis
    proof (cases "rendered (renderField c d f src)")
      case (Ok s)
      then show ?thesis using Some Cons.IH [of "d\<lparr>Batch := writeField (Batch d) f s\<rparr>"]
        by (simp add: Let_def split: prod.splits outcome.splits)
    qed (use Some in \<open>simp_all add: Let_def failed_def\<close>)
  qed
qed

lemma renderFields_shape:
  "renderFields c d fs = (res, d', rs) \<Longrightarrow>
   length (Batch d') = length (Batch d) \<and> valueCount (Batch d') m = valueCount (Batch d) m"
proof (induction fs arbitrary: d res d' rs)
  case Nil
  then show ?case by simp
next
  case (Cons f fs)
  show ?case
  proof (cases "readField (Batch d) f")
    case None
    with Cons.prems show ?thesis by simp
  next
    case (Some src)
    show ?thesis
    proof (cases "rendered (renderField c d f src)")
      case (Ok s)
      obtain res1 d1 rs1 where x: "renderFields c (d\<lparr>Batch := writeField (Batch d) f s\<rparr>) fs = (res1, d1, rs1)"
        by (cases "renderFields c (d\<lparr>Batch := writeField (Batch d) f s\<rparr>) fs")
      with Cons.prems Some Ok have "d' = d1" by (simp add: Let_def)
      with Cons.IH [OF x] show ?thesis by simp
    qed (use Some Cons.prems in \<open>simp_all add: Let_def\<close>)
  qed
qed

lemma entryFields_renderFields:
  "renderFields c d fs = (res, d', rs) \<Longrightarrow> entryFields (Batch d') m = entryFields (Batch d) m"
  by (simp add: entryFields_def renderFields_shape)

lemma writeEntry_renderFields:
  assumes "writeEntry c d n = (res, d', rs)" and "res \<noteq> Panic"
  shows "renderFields c d (entryFields (Batch d) n) = (res, d', rs)"
proof (cases "readField (Batch d) (NameField n)")
  case None
  with assms show ?thesis by (simp add: writeEntry_def)
next
  case (Some src)
  let ?r = "renderField c d (NameField n) src"
  show ?thesis
  proof (cases "rendered ?r")
    case (Ok s)
    let ?d1 = "d\<lparr>Batch := writeField (Batch d) (NameField n) s\<rparr>"
    obtain res1 d2 rs1 where x: "writeValues c ?d1 n [0..<valueCount (Batch d) n] = (res1, d2, rs1)"
      by (cases "writeValues c ?d1 n [0..<valueCount (Batch d) n]")
    from assms Some Ok x have "res = res1 \<and> d' = d2 \<and> rs = ?r # rs1"
      by (cases res1) (auto simp add: writeEntry_def Let_def split: option.splits if_splits)
    then show ?thesis
      using Some Ok x by (simp add: entryFields_def Let_def writeValues_renderFields)
  qed (use Some assms in \<open>auto simp add: writeEntry_def Let_def entryFields_def\<close>)
qed

lemma writeEntries_renderFields:
  "writeEntries c d ns = (res, d', rs) \<Longrightarrow> res \<noteq> Panic \<Longrightarrow>
   renderFields c d (concat (map (entryFields (Batch d)) ns)) = (res, d', rs)"
proof (induction ns arbitrary: d res d' rs)
  case Nil
  then show ?case by simp
next
  case (Cons n ns)
  obtain res1 d1 rs1 where e: "writeEntry c d n = (res1, d1, rs1)"
    by (cases "writeEntry c d n")
  show ?case
  proof (cases res1)
    case (Ok u)
    obtain res2 d2 rs2 where x: "writeEntries c d1 ns = (res2, d2, rs2)"
      by (cases "writeEntries c d1 ns")
    from Cons.prems e Ok x have eq: "res = res2" "d' = d2" "rs = rs1 @ rs2" by simp_all
    have r1: "renderFields c d (entryFields (Batch d) n) = (Ok u, d1, rs1)"
      using writeEntry_renderFields [OF e] Ok by simp
    have same: "map (entryFields (Batch d1)) ns = map (entryFields (Batch d)) ns"
      using entryFields_renderFields [OF r1] by simp
    have r2: "renderFields c d1 (concat (map (entryFields (Batch d)) ns)) = (res2, d2, rs2)"
      using Cons.IH [OF x] Cons.prems(2) eq same by simp
    show ?thesis using r1 r2 eq by (simp add: renderFields_append)
  next
    case (Err e1)
    with Cons.prems e have eq: "res = res1" "d' = d1" "rs = rs1" by simp_all
    have "renderFields c d (entryFields (Batch d) n) = (res1, d1, rs1)"
      using writeEntry_renderFields [OF e] Err by simp
    then show ?thesis using eq Err by (simp add: renderFields_append)
  next
    case Panic
    with Cons.prems e show ?thesis by simp
  next
    case Unmodelled
    with Cons.prems e have eq: "res = res1" "d' = d1" "rs = rs1" by simp_all
    have "renderFields c d (entryFields (Batch d) n) = (res1, d1, rs1)"
      using writeEntry_renderFields [OF e] Unmodelled by simp
    then show ?thesis using eq Unmodelled by (simp add: renderFields_append)
  qed
qed

lemma WriteTemplateFields_renderFields:
  "WriteTemplateFields c d = (res, d', rs) \<Longrightarrow> res \<noteq> Panic \<Longrightarrow>
   renderFields c d (allFields (Batch d)) = (res, d', rs)"
  by (simp add: WriteTemplateFields_def allFields_def writeEntries_renderFields)

section \<open>What a run of the loop leaves behind\<close>

lemma isOk_iff: "isOk r = (\<exists>v. r = Ok v)"
  by (cases r) (simp_all add: isOk_def)

lemma written_simps [simp]:
  "written [] = []"
  "written (r # rs) = (if \<exists>s. rendered r = Ok s then field r # written rs else written rs)"
  by (simp_all add: written_def isOk_iff)

lemma failed_Ok [simp]: "(failed r = Ok u) = (\<exists>s. r = Ok s)"
  by (cases r) (simp_all add: failed_def)

lemma failed_Err [simp]: "(failed r = Err e) = (r = Err e)"
  by (cases r) (simp_all add: failed_def)

lemma renderFields_Cons_cases:
  assumes "renderFields c d (f # fs) = (res, d', rs)"
  obtains (nil) "readField (Batch d) f = None" "res = Panic" "d' = d" "rs = []"
  | (fail) src where "readField (Batch d) f = Some src"
      "\<nexists>s. rendered (renderField c d f src) = Ok s"
      "res = failed (rendered (renderField c d f src))" "d' = d" "rs = [renderField c d f src]"
  | (step) src s rs' where "readField (Batch d) f = Some src"
      "rendered (renderField c d f src) = Ok s"
      "renderFields c (d\<lparr>Batch := writeField (Batch d) f s\<rparr>) fs = (res, d', rs')"
      "rs = renderField c d f src # rs'"
proof (cases "readField (Batch d) f")
  case None
  with assms have "res = Panic" "d' = d" "rs = []" by simp_all
  with None show ?thesis by (rule nil)
next
  case (Some src)
  let ?r = "renderField c d f src"
  show ?thesis
  proof (cases "\<exists>s. rendered ?r = Ok s")
    case True
    then obtain s where ok: "rendered ?r = Ok s" by blast
    obtain res1 d1 rs1 where x:
      "renderFields c (d\<lparr>Batch := writeField (Batch d) f s\<rparr>) fs = (res1, d1, rs1)"
      by (cases "renderFields c (d\<lparr>Batch := writeField (Batch d) f s\<rparr>) fs")
    with assms Some ok have "res = res1" "d' = d1" "rs = ?r # rs1"
      by (simp_all add: Let_def)
    with x have "renderFields c (d\<lparr>Batch := writeField (Batch d) f s\<rparr>) fs = (res, d', rs1)"
      "rs = ?r # rs1" by simp_all
    with Some ok show ?thesis by (rule step)
  next
    case False
    with assms Some have "res = failed (rendered ?r)" "d' = d" "rs = [?r]"
      by (cases "rendered ?r"; simp add: Let_def)+
    with Some False show ?thesis by (rule fail)
  qed
qed

lemma renderFields_fields:
  "renderFields c d fs = (res, d', rs) \<Longrightarrow>
   map field rs = take (length rs) fs
   \<and> (res = Ok () \<longrightarrow> length rs = length fs \<and> (\<forall>r\<in>set rs. \<exists>s. rendered r = Ok s))
   \<and> (\<forall>e. res = Err e \<longrightarrow> rs \<noteq> [] \<and> rendered (last rs) = Err e)
   \<and> (\<forall>r\<in>set (butlast rs). \<exists>s. rendered r = Ok s)"
proof (induction fs arbitrary: d res d' rs)
  case Nil
  then show ?case by auto
next
  case (Cons f fs)
  from Cons.prems show ?case
  proof (cases rule: renderFields_Cons_cases)
    case nil
    then show ?thesis by simp
  next
    case (fail src)
    then show ?thesis by auto
  next
    case (step src s rs')
    from Cons.IH [OF step(3)] step(2,4) show ?thesis
      by auto
  qed
qed

lemma written_subset:
  "renderFields c d fs = (res, d', rs) \<Longrightarrow> set (written rs) \<subseteq> set fs"
proof -
  assume a: "renderFields c d fs = (res, d', rs)"
  have "set (written rs) \<subseteq> set (map field rs)" by (auto simp add: written_def)
  also have "\<dots> \<subseteq> set fs" using renderFields_fields [OF a] by (metis set_take_subset)
  finally show ?thesis .
qed

lemma renderFields_frame:
  "renderFields c d fs = (res, d', rs) \<Longrightarrow> g \<notin> set (written rs) \<Longrightarrow>
   readField (Batch d') g = readField (Batch d) g"
proof (induction fs arbitrary: d res d' rs)
  case Nil
  then show ?case by simp
next
  case (Cons f fs)
  from Cons.prems(1) show ?case
  proof (cases rule: renderFields_Cons_cases)
    case nil
    then show ?thesis by simp
  next
    case (fail src)
    then show ?thesis by simp
  next
    case (step src s rs')
    with Cons.prems(2) have g: "g \<noteq> f" "g \<notin> set (written rs')" by auto
    from Cons.IH [OF step(3) g(2)] g(1) show ?thesis
      by (simp add: readField_writeField_other)
  qed
qed

lemma renderFields_persist:
  "renderFields c d fs = (res, d', rs) \<Longrightarrow> distinct fs \<Longrightarrow> r \<in> set rs \<Longrightarrow>
   rendered r = Ok s \<Longrightarrow> readField (Batch d') (field r) = Some s"
proof (induction fs arbitrary: d res d' rs)
  case Nil
  then show ?case by simp
next
  case (Cons f fs)
  from Cons.prems(1) show ?case
  proof (cases rule: renderFields_Cons_cases)
    case nil
    with Cons.prems show ?thesis by simp
  next
    case (fail src)
    with Cons.prems show ?thesis by auto
  next
    case (step src s0 rs')
    let ?d1 = "d\<lparr>Batch := writeField (Batch d) f s0\<rparr>"
    show ?thesis
    proof (cases "r \<in> set rs'")
      case True
      with Cons.IH [OF step(3)] Cons.prems show ?thesis by simp
    next
      case False
      with Cons.prems step have r: "r = renderField c d f src" "s = s0" by auto
      have "f \<notin> set (written rs')"
        using written_subset [OF step(3)] Cons.prems(2) by auto
      then have "readField (Batch d') f = readField (Batch ?d1) f"
        using renderFields_frame [OF step(3)] by simp
      also have "\<dots> = Some s0" using step(1) by (simp add: readField_writeField_same)
      finally show ?thesis using r by simp
    qed
  qed
qed

lemma renderFields_templates:
  "renderFields c d fs = (res, d', rs) \<Longrightarrow> distinct fs \<Longrightarrow> r \<in> set rs \<Longrightarrow>
   readField (Batch d) (field r) = Some (template r)"
proof (induction fs arbitrary: d res d' rs)
  case Nil
  then show ?case by simp
next
  case (Cons f fs)
  from Cons.prems(1) show ?case
  proof (cases rule: renderFields_Cons_cases)
    case nil
    with Cons.prems show ?thesis by simp
  next
    case (fail src)
    with Cons.prems show ?thesis by auto
  next
    case (step src s0 rs')
    let ?d1 = "d\<lparr>Batch := writeField (Batch d) f s0\<rparr>"
    show ?thesis
    proof (cases "r \<in> set rs'")
      case True
      with Cons.IH [OF step(3)] Cons.prems
      have 1: "readField (Batch ?d1) (field r) = Some (template r)" by simp
      have "field r \<in> set (map field rs')" using True by simp
      then have "field r \<in> set fs"
        using renderFields_fields [OF step(3)] by (metis in_set_takeD)
      with Cons.prems(2) have "f \<noteq> field r" by auto
      with 1 show ?thesis by (simp add: readField_writeField_other)
    next
      case False
      with Cons.prems step have "r = renderField c d f src" by auto
      with step(1) show ?thesis by simp
    qed
  qed
qed

lemma before_irrefl [simp]: "\<not> before f f"
  by (cases f) simp_all

lemma before_trans: "before f g \<Longrightarrow> before g h \<Longrightarrow> before f h"
  by (cases f; cases g; cases h) auto

lemma before_entryOf: "entryOf f < entryOf g \<Longrightarrow> before f g"
  by (cases f; cases g) auto

lemma entryOf_entryFields: "f \<in> set (entryFields b n) \<Longrightarrow> entryOf f = n"
  by (auto simp add: entryFields_def)

lemma sorted_entryFields: "sorted_wrt before (entryFields b n)"
  by (auto simp add: entryFields_def sorted_wrt_map)

lemma sorted_entries:
  "sorted_wrt (<) ns \<Longrightarrow> sorted_wrt before (concat (map (entryFields b) ns))"
proof (induction ns)
  case Nil
  then show ?case by simp
next
  case (Cons n ns)
  have "before f g" if "f \<in> set (entryFields b n)" "g \<in> set (concat (map (entryFields b) ns))" for f g
  proof -
    from that(2) obtain m where "m \<in> set ns" "g \<in> set (entryFields b m)" by auto
    with Cons.prems that(1) have "entryOf f < entryOf g"
      by (auto simp add: entryOf_entryFields)
    then show ?thesis by (rule before_entryOf)
  qed
  with Cons show ?case by (simp add: sorted_wrt_append sorted_entryFields)
qed

lemma sorted_allFields: "sorted_wrt before (allFields b)"
  by (simp add: allFields_def sorted_entries)

lemma sorted_before_distinct: "sorted_wrt before fs \<Longrightarrow> distinct fs"
  by (induction fs) auto

lemma distinct_allFields: "distinct (allFields b)"
  by (rule sorted_before_distinct [OF sorted_allFields])

lemma sorted_head_not_after:
  assumes "sorted_wrt before (f # fs)" and "before g f"
  shows "g \<notin> set (f # fs)"
proof
  assume "g \<in> set (f # fs)"
  then consider "g = f" | "g \<in> set fs" by auto
  then show False
  proof cases
    case 1
    with assms(2) show False by simp
  next
    case 2
    with assms(1) have "before f g" by simp
    with assms(2) have "before g g" by (rule before_trans)
    then show False by simp
  qed
qed

lemma renderFields_lookups:
  "renderFields c d fs = (res, d', rs) \<Longrightarrow> sorted_wrt before fs \<Longrightarrow> r \<in> set rs \<Longrightarrow>
   l \<in> set (lookups r) \<Longrightarrow>
   NameField (nat (setIndex l)) \<notin> set fs \<or> before (NameField (nat (setIndex l))) (field r) \<Longrightarrow>
   readField (Batch d') (NameField (nat (setIndex l))) = Some (lookupName l)"
proof (induction fs arbitrary: d res d' rs)
  case Nil
  then show ?case by simp
next
  case (Cons f fs)
  let ?g = "NameField (nat (setIndex l))"
  have here: "readField (Batch d') ?g = Some (lookupName l)"
    if r: "r = renderField c d f src" for src
  proof -
    from Cons.prems(4) r have seen: "readField (Batch d) ?g = Some (lookupName l)"
      using renderField_lookups by blast
    from Cons.prems(5) r have "?g \<notin> set (f # fs)"
      using sorted_head_not_after [OF Cons.prems(2)] by auto
    then have "?g \<notin> set (written rs)"
      using written_subset [OF Cons.prems(1)] by blast
    from renderFields_frame [OF Cons.prems(1) this] seen show ?thesis by simp
  qed
  from Cons.prems(1) show ?case
  proof (cases rule: renderFields_Cons_cases)
    case nil
    with Cons.prems show ?thesis by simp
  next
    case (fail src)
    with Cons.prems(3) have "r = renderField c d f src" by simp
    then show ?thesis by (rule here)
  next
    case (step src s rs')
    show ?thesis
    proof (cases "r \<in> set rs'")
      case True
      from Cons.prems(2) have "sorted_wrt before fs" by simp
      moreover from Cons.prems(5) have "?g \<notin> set fs \<or> before ?g (field r)" by auto
      ultimately show ?thesis
        using Cons.IH [OF step(3) _ True Cons.prems(4)] by blast
    next
      case False
      with Cons.prems(3) step(4) have "r = renderField c d f src" by simp
      then show ?thesis by (rule here)
    qed
  qed
qed

lemma renderFields_reached:
  "renderFields c d fs = (Err e, d', rs) \<Longrightarrow> sorted_wrt before fs \<Longrightarrow> g \<in> set fs \<Longrightarrow>
   before g (field (last rs)) \<Longrightarrow> g \<in> set (written rs)"
proof (induction fs arbitrary: d rs)
  case Nil
  then show ?case by simp
next
  case (Cons f fs)
  from Cons.prems(1) show ?case
  proof (cases rule: renderFields_Cons_cases)
    case nil
    then show ?thesis by simp
  next
    case (fail src)
    with Cons.prems(4) have "before g f" by simp
    from sorted_head_not_after [OF Cons.prems(2) this] Cons.prems(3) show ?thesis by simp
  next
    case (step src s rs')
    from renderFields_fields [OF step(3)] have ne: "rs' \<noteq> []" by simp
    show ?thesis
    proof (cases "g = f")
      case True
      with step show ?thesis by simp
    next
      case False
      with Cons.prems(3) have "g \<in> set fs" by simp
      moreover from Cons.prems(2) have "sorted_wrt before fs" by simp
      moreover from Cons.prems(4) step(4) ne have "before g (field (last rs'))" by simp
      ultimately have "g \<in> set (written rs')" using Cons.IH [OF step(3)] by blast
      with step show ?thesis by simp
    qed
  qed
qed

lemma written_failed:
  assumes "renderFields c d fs = (Err e, d', rs)"
  shows "written rs = map field (butlast rs)"
proof -
  from renderFields_fields [OF assms]
  have ne: "rs \<noteq> []" and l: "rendered (last rs) = Err e"
    and b: "\<forall>r\<in>set (butlast rs). \<exists>s. rendered r = Ok s" by simp_all
  from ne have "rs = butlast rs @ [last rs]" by simp
  then have "written rs = map field (filter (\<lambda>r. \<exists>s. rendered r = Ok s) (butlast rs @ [last rs]))"
    by (simp add: written_def isOk_iff)
  also have "\<dots> = map field (butlast rs)" using l b by (simp add: filter_id_conv)
  finally show ?thesis .
qed

lemma handle_submits_after_rendering:
  assumes "parseFullEvent (decoder p) evt = Inr (message, args)"
    and "Event message \<noteq> ''autoscaling:TEST_NOTIFICATION''" and "NewSession p = None"
    and "populate (services p) (EC2InstanceID message) (messageArgs.HostedZoneID args) (Changes args) = Ok d"
    and "WriteTemplateFields (services p) d = (Ok (), d', rs)"
  shows "\<exists>evs. snd (handle p evt) =
            DescribeInstancesCall (EC2InstanceID message) # map TemplateRender rs
              @ ChangeResourceRecordSetsCall (messageArgs.HostedZoneID args) (Batch d') # evs
          \<and> (\<forall>r. TemplateRender r \<notin> set evs) \<and> submissions evs = []"
  using assms
  by (auto simp add: handle_def newAWSClient_def SendRoute53ChangeBatch_def
      CompleteAutoscalingAction_def split: sum.splits option.splits)

lemma handle_failed_rendering:
  assumes "parseFullEvent (decoder p) evt = Inr (message, args)"
    and "Event message \<noteq> ''autoscaling:TEST_NOTIFICATION''" and "NewSession p = None"
    and "populate (services p) (EC2InstanceID message) (messageArgs.HostedZoneID args) (Changes args) = Ok d"
    and "WriteTemplateFields (services p) d = (Err e, d', rs)"
  shows "fst (handle p evt) = Err e \<and> submissions (snd (handle p evt)) = []"
  using assms by (simp add: handle_def newAWSClient_def)

text \<open>A run that panics at the log line has rendered the fields so far as the one loop
  does: every run of \<^verbatim>\<open>WriteTemplateFields\<close> leaves the batch and the renders of a run of
  the one loop over a first part of the fields.\<close>

lemma writeEntry_run:
  assumes "writeEntry c d n = (res, d', rs)"
  shows "\<exists>res'. renderFields c d (entryFields (Batch d) n) = (res', d', rs)
           \<and> (res' = res \<or> (res = Panic \<and> res' = Ok ()))"
proof (cases "res = Panic")
  case False
  with writeEntry_renderFields [OF assms] show ?thesis by simp
next
  case True
  show ?thesis
  proof (cases "readField (Batch d) (NameField n)")
    case None
    with assms show ?thesis by (auto simp add: writeEntry_def entryFields_def)
  next
    case (Some src)
    let ?r = "renderField c d (NameField n) src"
    show ?thesis
    proof (cases "rendered ?r")
      case (Ok s)
      let ?d1 = "d\<lparr>Batch := writeField (Batch d) (NameField n) s\<rparr>"
      obtain res1 d2 rs1 where x: "writeValues c ?d1 n [0..<valueCount (Batch d) n] = (res1, d2, rs1)"
        by (cases "writeValues c ?d1 n [0..<valueCount (Batch d) n]")
      from assms Some Ok x have "d' = d2 \<and> rs = ?r # rs1 \<and> (res1 = res \<or> res1 = Ok ())"
        by (cases res1) (auto simp add: writeEntry_def Let_def split: option.splits if_splits)
      then show ?thesis
        using Some Ok x True by (auto simp add: entryFields_def Let_def writeValues_renderFields)
    qed (use Some assms in \<open>auto simp add: writeEntry_def Let_def entryFields_def\<close>)
  qed
qed

lemma writeEntries_run:
  "writeEntries c d ns = (res, d', rs) \<Longrightarrow>
   \<exists>m res'. renderFields c d (concat (map (entryFields (Batch d)) (take m ns))) = (res', d', rs)"
proof (induction ns arbitrary: d res d' rs)
  case Nil
  then show ?case by simp
next
  case (Cons n ns)
  obtain res1 d1 rs1 where e: "writeEntry c d n = (res1, d1, rs1)"
    by (cases "writeEntry c d n")
  from writeEntry_run [OF e] obtain res1' where
    r1: "renderFields c d (entryFields (Batch d) n) = (res1', d1, rs1)"
    and r1': "res1' = res1 \<or> (res1 = Panic \<and> res1' = Ok ())" by blast
  show ?case
  proof (cases "res1 = Ok ()")
    case True
    obtain res2 d2 rs2 where x: "writeEntries c d1 ns = (res2, d2, rs2)"
      by (cases "writeEntries c d1 ns")
    from Cons.prems e True x have eq: "d' = d2" "rs = rs1 @ rs2" by simp_all
    from Cons.IH [OF x] obtain m res2' where
      r2: "renderFields c d1 (concat (map (entryFields (Batch d1)) (take m ns))) = (res2', d2, rs2)"
      by blast
    have same: "map (entryFields (Batch d1)) (take m ns) = map (entryFields (Batch d)) (take m ns)"
      using entryFields_renderFields [OF r1] by simp
    from r1 r1' True have "renderFields c d (entryFields (Batch d) n) = (Ok (), d1, rs1)" by simp
    with r2 same eq
    have "renderFields c d (concat (map (entryFields (Batch d)) (take (Suc m) (n # ns)))) = (res2', d', rs)"
      by (simp add: renderFields_append)
    then show ?thesis by blast
  next
    case False
    with Cons.prems e have eq: "d' = d1" "rs = rs1" by (cases res1; simp)+
    with r1 have "renderFields c d (concat (map (entryFields (Batch d)) (take (Suc 0) (n # ns)))) = (res1', d', rs)"
      by simp
    then show ?thesis by blast
  qed
qed

lemma WriteTemplateFields_run:
  assumes "WriteTemplateFields c d = (res, d', rs)"
  obtains fs gs res' where "renderFields c d fs = (res', d', rs)"
    and "allFields (Batch d) = fs @ gs"
proof -
  from writeEntries_run [OF assms [unfolded WriteTemplateFields_def]]
  obtain m res' where
    r: "renderFields c d (concat (map (entryFields (Batch d)) (take m [0..<length (Batch d)]))) = (res', d', rs)"
    by blast
  have "concat (map f xs) = concat (map f (take m xs)) @ concat (map f (drop m xs))"
    for f :: "nat \<Rightarrow> field_id list" and xs
    by (metis append_take_drop_id concat_append map_append)
  then have "allFields (Batch d) =
      concat (map (entryFields (Batch d)) (take m [0..<length (Batch d)]))
      @ concat (map (entryFields (Batch d)) (drop m [0..<length (Batch d)]))"
    unfolding allFields_def .
  with r that show ?thesis by blast
qed

lemma sorted_before_prefix: "sorted_wrt before (fs @ gs) \<Longrightarrow> sorted_wrt before fs"
  by (simp add: sorted_wrt_append)

lemma renderFields_unrendered:
  "renderFields c d fs = (res, d', rs) \<Longrightarrow> sorted_wrt before fs \<Longrightarrow> r \<in> set rs \<Longrightarrow>
   l \<in> set (lookups r) \<Longrightarrow> \<not> before (NameField (nat (setIndex l))) (field r) \<Longrightarrow>
   readField (Batch d) (NameField (nat (setIndex l))) = Some (lookupName l)"
proof (induction fs arbitrary: d res d' rs)
  case Nil
  then show ?case by simp
next
  case (Cons f fs)
  let ?g = "NameField (nat (setIndex l))"
  have here: "readField (Batch d) ?g = Some (lookupName l)" if "r = renderField c d f src" for src
    using Cons.prems(4) that renderField_lookups by blast
  from Cons.prems(1) show ?case
  proof (cases rule: renderFields_Cons_cases)
    case nil
    with Cons.prems show ?thesis by simp
  next
    case (fail src)
    with Cons.prems(3) have "r = renderField c d f src" by simp
    then show ?thesis by (rule here)
  next
    case (step src s rs')
    show ?thesis
    proof (cases "r \<in> set rs'")
      case True
      from Cons.prems(2) have sorted: "sorted_wrt before fs" by simp
      from Cons.IH [OF step(3) sorted True Cons.prems(4,5)]
      have 1: "readField (Batch (d\<lparr>Batch := writeField (Batch d) f s\<rparr>)) ?g = Some (lookupName l)" .
      have "field r \<in> set (map field rs')" using True by simp
      then have "field r \<in> set fs"
        using renderFields_fields [OF step(3)] by (metis in_set_takeD)
      with Cons.prems(2) have "before f (field r)" by simp
      with Cons.prems(5) have "f \<noteq> ?g" by auto
      with 1 show ?thesis by (simp add: readField_writeField_other)
    next
      case False
      with Cons.prems(3) step(4) have "r = renderField c d f src" by simp
      then show ?thesis by (rule here)
    qed
  qed
qed

section \<open>Template resolution\<close>

text \<open>
  C3. In every run of \<^verbatim>\<open>WriteTemplateFields\<close> the templates parsed are a first part of the
  fields of the batch in ascending entry order, each entry's name before its values and
  each field once, and all of them when the run succeeds; each template parsed is the
  string the batch held for that field, and the batch afterwards holds the rendered literal
  in the place of each template that rendered. A lookup made while a field is rendered, for
  an entry whose name comes before that field (an earlier entry, or the same entry when the
  field is one of its values), is made with that entry's rendered name. Any other lookup is
  made with the name as the batch first held it; for a lookup made from the name template
  of an entry for that entry itself, this is the template being rendered. When the run
  succeeds, the handler submits the batch so rendered, after all the templates have been
  rendered.
\<close>

theorem template_fields_rendered_in_order:
  assumes "WriteTemplateFields c d = (res, d', rs)"
  shows "map field rs = take (length rs) (allFields (Batch d))
   \<and> distinct (map field rs) \<and> sorted_wrt before (map field rs)
   \<and> (res = Ok () \<longrightarrow>
        map field rs = allFields (Batch d)
        \<and> (\<forall>r\<in>set rs. \<exists>s. rendered r = Ok s \<and> readField (Batch d') (field r) = Some s))
   \<and> (\<forall>r\<in>set rs. readField (Batch d) (field r) = Some (template r))
   \<and> (\<forall>r\<in>set rs. \<forall>s. rendered r = Ok s \<longrightarrow> readField (Batch d') (field r) = Some s)
   \<and> (\<forall>r\<in>set rs. \<forall>l\<in>set (lookups r).
         (before (NameField (nat (setIndex l))) (field r) \<longrightarrow>
            readField (Batch d') (NameField (nat (setIndex l))) = Some (lookupName l))
         \<and> (\<not> before (NameField (nat (setIndex l))) (field r) \<longrightarrow>
            readField (Batch d) (NameField (nat (setIndex l))) = Some (lookupName l))
         \<and> (field r = NameField (nat (setIndex l)) \<longrightarrow> lookupName l = template r))
   \<and> (res = Ok () \<and> c = services p \<and> parseFullEvent (decoder p) evt = Inr (message, args) \<and>
       Event message \<noteq> ''autoscaling:TEST_NOTIFICATION'' \<and> NewSession p = None \<and>
       populate (services p) (EC2InstanceID message) (messageArgs.HostedZoneID args) (Changes args)
         = Ok d \<longrightarrow>
       (\<exists>evs. snd (handle p evt) =
            DescribeInstancesCall (EC2InstanceID message) # map TemplateRender rs
              @ ChangeResourceRecordSetsCall (messageArgs.HostedZoneID args) (Batch d') # evs
          \<and> (\<forall>r. TemplateRender r \<notin> set evs) \<and> submissions evs = []))"
proof -
  from assms obtain fs gs res' where run: "renderFields c d fs = (res', d', rs)"
    and all: "allFields (Batch d) = fs @ gs"
    by (rule WriteTemplateFields_run)
  have sorted: "sorted_wrt before fs"
    using sorted_allFields [of "Batch d"] all by (simp add: sorted_wrt_append)
  have dist: "distinct fs" using sorted by (rule sorted_before_distinct)
  from renderFields_fields [OF run] have f: "map field rs = take (length rs) fs" by simp
  then have "length (map field rs) = length (take (length rs) fs)" by (rule arg_cong)
  then have len: "length rs \<le> length fs" by simp
  have "take (length rs) (fs @ gs) = take (length rs) fs" using len by simp
  with f all have fields: "map field rs = take (length rs) (allFields (Batch d))" by simp
  have d2: "distinct (map field rs)" unfolding f using dist by (rule distinct_take)
  have s2: "sorted_wrt before (map field rs)" unfolding f using sorted by (rule sorted_wrt_take)
  have 1: "\<forall>r\<in>set rs. readField (Batch d) (field r) = Some (template r)"
    using renderFields_templates [OF run dist] by blast
  have 2: "\<forall>r\<in>set rs. \<forall>s. rendered r = Ok s \<longrightarrow> readField (Batch d') (field r) = Some s"
    using renderFields_persist [OF run dist] by blast
  have 3: "map field rs = allFields (Batch d)
        \<and> (\<forall>r\<in>set rs. \<exists>s. rendered r = Ok s \<and> readField (Batch d') (field r) = Some s)"
    if "res = Ok ()"
  proof -
    from assms that have "renderFields c d (allFields (Batch d)) = (Ok (), d', rs)"
      using WriteTemplateFields_renderFields by simp
    from renderFields_fields [OF this] 2 show ?thesis by auto
  qed
  have 4: "(before (NameField (nat (setIndex l))) (field r) \<longrightarrow>
            readField (Batch d') (NameField (nat (setIndex l))) = Some (lookupName l))
         \<and> (\<not> before (NameField (nat (setIndex l))) (field r) \<longrightarrow>
            readField (Batch d) (NameField (nat (setIndex l))) = Some (lookupName l))
         \<and> (field r = NameField (nat (setIndex l)) \<longrightarrow> lookupName l = template r)"
    if r: "r \<in> set rs" and l: "l \<in> set (lookups r)" for r l
  proof -
    let ?g = "NameField (nat (setIndex l))"
    have a: "readField (Batch d') ?g = Some (lookupName l)" if "before ?g (field r)"
      using renderFields_lookups [OF run sorted r l] that by blast
    have b: "readField (Batch d) ?g = Some (lookupName l)" if "\<not> before ?g (field r)"
      using renderFields_unrendered [OF run sorted r l] that by blast
    have "lookupName l = template r" if "field r = ?g"
    proof -
      from that have "\<not> before ?g (field r)" by simp
      then have "readField (Batch d) (field r) = Some (lookupName l)" using b that by simp
      with 1 r show ?thesis by simp
    qed
    with a b show ?thesis by blast
  qed
  have 5: "\<exists>evs. snd (handle p evt) =
            DescribeInstancesCall (EC2InstanceID message) # map TemplateRender rs
              @ ChangeResourceRecordSetsCall (messageArgs.HostedZoneID args) (Batch d') # evs
          \<and> (\<forall>r. TemplateRender r \<notin> set evs) \<and> submissions evs = []"
    if "res = Ok ()" "c = services p" "parseFullEvent (decoder p) evt = Inr (message, args)"
      "Event message \<noteq> ''autoscaling:TEST_NOTIFICATION''" "NewSession p = None"
      "populate (services p) (EC2InstanceID message) (messageArgs.HostedZoneID args) (Changes args)
         = Ok d"
    using handle_submits_after_rendering [OF that(3-6)] assms that(1,2) by simp
  have c3: "res = Ok () \<longrightarrow>
        map field rs = allFields (Batch d)
        \<and> (\<forall>r\<in>set rs. \<exists>s. rendered r = Ok s \<and> readField (Batch d') (field r) = Some s)"
    using 3 by blast
  have c4: "\<forall>r\<in>set rs. \<forall>l\<in>set (lookups r).
         (before (NameField (nat (setIndex l))) (field r) \<longrightarrow>
            readField (Batch d') (NameField (nat (setIndex l))) = Some (lookupName l))
         \<and> (\<not> before (NameField (nat (setIndex l))) (field r) \<longrightarrow>
            readField (Batch d) (NameField (nat (setIndex l))) = Some (lookupName l))
         \<and> (field r = NameField (nat (setIndex l)) \<longrightarrow> lookupName l = template r)"
    using 4 by blast
  have c5: "res = Ok () \<and> c = services p \<and> parseFullEvent (decoder p) evt = Inr (message, args) \<and>
       Event message \<noteq> ''autoscaling:TEST_NOTIFICATION'' \<and> NewSession p = None \<and>
       populate (services p) (EC2InstanceID message) (messageArgs.HostedZoneID args) (Changes args)
         = Ok d \<longrightarrow>
       (\<exists>evs. snd (handle p evt) =
            DescribeInstancesCall (EC2InstanceID message) # map TemplateRender rs
              @ ChangeResourceRecordSetsCall (messageArgs.HostedZoneID args) (Batch d') # evs
          \<and> (\<forall>r. TemplateRender r \<notin> set evs) \<and> submissions evs = [])"
    by (intro impI, elim conjE) (rule 5; assumption)
  show ?thesis
    by (intro conjI) (rule fields d2 s2 c3 1 2 c4 c5)+
qed

theorem template_fields_rendered_in_order_witness:
  "allFields orderedBatch
     = [NameField 0, ValueField 0 0, NameField 1, ValueField 1 0, NameField 2]
   \<and> readField orderedRendered (NameField 0) = Some ''i-123456789.example.com.''
   \<and> readField orderedRendered (ValueField 1 0) = Some ''192.0.2.7''
   \<and> readField orderedBatch (NameField 2) = Some ''{{.ExistingRDataValue 2 0}}''
   \<and> submissions (snd (handle (testProcess testMessage (testMetadata\<lparr>Changes := orderedBatch\<rparr>)) ''{}''))
     = [(''ABCDEF0123456789'', orderedRendered)]"
proof -
  let ?c = "testAwsClient oneRecord"
  let ?d = "scenarioData\<lparr>Batch := orderedBatch\<rparr>"
  let ?r0 = "\<lparr>field = NameField 0, template = ''{{.InstanceID}}.example.com.'',
               lookups = [], rendered = Ok ''i-123456789.example.com.''\<rparr>"
  let ?r1 = "\<lparr>field = ValueField 0 0, template = ''{{.ExistingRDataValue 0 0}}'',
               lookups = [Lookup 0 ''i-123456789.example.com.'' ''A''],
               rendered = Ok ''192.0.2.7''\<rparr>"
  let ?r2 = "\<lparr>field = NameField 1, template = ''www.example.com.'', lookups = [],
               rendered = Ok ''www.example.com.''\<rparr>"
  let ?r3 = "\<lparr>field = ValueField 1 0, template = ''{{.ExistingRDataValue 0 0}}'',
               lookups = [Lookup 0 ''i-123456789.example.com.'' ''A''],
               rendered = Ok ''192.0.2.7''\<rparr>"
  let ?r4 = "\<lparr>field = NameField 2, template = ''{{.ExistingRDataValue 2 0}}'',
               lookups = [Lookup 2 ''{{.ExistingRDataValue 2 0}}'' ''TXT''],
               rendered = Ok ''192.0.2.7''\<rparr>"
  let ?a = "testMetadata\<lparr>Changes := orderedBatch\<rparr>"
  let ?p = "testProcess testMessage ?a"
  have run: "WriteTemplateFields ?c ?d
               = (Ok (), ?d\<lparr>Batch := orderedRendered\<rparr>, [?r0, ?r1, ?r2, ?r3, ?r4])"
    by code_simp
  have 1: "?c = services ?p" by (simp add: testProcess_def)
  have 2: "parseFullEvent (decoder ?p) ''{}'' = Inr (testMessage, ?a)" by code_simp
  have 3: "Event testMessage \<noteq> ''autoscaling:TEST_NOTIFICATION''" by code_simp
  have 4: "NewSession ?p = None" by code_simp
  have 5: "populate (services ?p) (EC2InstanceID testMessage) (messageArgs.HostedZoneID ?a)
             (Changes ?a) = Ok ?d" by code_simp
  have 6: "messageArgs.HostedZoneID ?a = ''ABCDEF0123456789''" by code_simp
  note t = template_fields_rendered_in_order [OF run, where p = ?p and evt = "''{}''"
      and message = testMessage and args = ?a]
  note ok = t [THEN conjunct2, THEN conjunct2, THEN conjunct2, THEN conjunct1]
  note seen = t [THEN conjunct2, THEN conjunct2, THEN conjunct2, THEN conjunct2, THEN conjunct2,
      THEN conjunct2, THEN conjunct1]
  note sent = t [THEN conjunct2, THEN conjunct2, THEN conjunct2, THEN conjunct2, THEN conjunct2,
      THEN conjunct2, THEN conjunct2]
  from ok have fs: "[NameField 0, ValueField 0 0, NameField 1, ValueField 1 0, NameField 2]
      = allFields orderedBatch"
    and c: "readField orderedRendered (ValueField 1 0) = Some ''192.0.2.7''"
    by simp_all
  from fs have a: "allFields orderedBatch
     = [NameField 0, ValueField 0 0, NameField 1, ValueField 1 0, NameField 2]"
    by (rule sym)
  from seen have b: "readField orderedRendered (NameField 0) = Some ''i-123456789.example.com.''"
    and d: "readField orderedBatch (NameField 2) = Some ''{{.ExistingRDataValue 2 0}}''"
    by simp_all
  from sent 1 2 3 4 5 6
  have "submissions (snd (handle ?p ''{}'')) = [(''ABCDEF0123456789'', orderedRendered)]"
    by auto
  with a b c d show ?thesis by simp
qed

text \<open>A lookup made from the name template of entry 0 for entry 0 itself: it is made with the
  name as it still stands, template syntax included.\<close>

theorem lookup_sees_unrendered_name:
  "WriteTemplateFields (testAwsClient oneRecord) (scenarioData\<lparr>Batch := selfLookupBatch\<rparr>)
     = (Ok (), scenarioData\<lparr>Batch := [upsert ''192.0.2.7'' ''A'' []]\<rparr>,
        [\<lparr>field = NameField 0, template = ''{{.ExistingRDataValue 0 0}}'',
          lookups = [Lookup 0 ''{{.ExistingRDataValue 0 0}}'' ''A''],
          rendered = Ok ''192.0.2.7''\<rparr>])"
  by code_simp

text \<open>
  C10. When \<^verbatim>\<open>WriteTemplateFields\<close> returns an error, the last template it reached is the
  one that failed; every field before it, so every field of the earlier entries and the
  earlier fields of the same entry, has been rendered and holds its rendered literal in the
  batch that is left behind; every other field is as it was. The handler returns the error
  and submits nothing.
\<close>

theorem failed_resolution_keeps_rendered_fields:
  assumes "WriteTemplateFields c d = (Err e, d', rs)"
  shows "rs \<noteq> [] \<and> rendered (last rs) = Err e
   \<and> map field rs = take (length rs) (allFields (Batch d))
   \<and> (\<forall>g\<in>set (allFields (Batch d)). before g (field (last rs)) \<longrightarrow> g \<in> field ` set (butlast rs))
   \<and> (\<forall>r\<in>set (butlast rs). \<exists>s. rendered r = Ok s \<and> readField (Batch d') (field r) = Some s)
   \<and> (\<forall>g. g \<notin> field ` set (butlast rs) \<longrightarrow> readField (Batch d') g = readField (Batch d) g)
   \<and> (c = services p \<and> parseFullEvent (decoder p) evt = Inr (message, args) \<and>
       Event message \<noteq> ''autoscaling:TEST_NOTIFICATION'' \<and> NewSession p = None \<and>
       populate (services p) (EC2InstanceID message) (messageArgs.HostedZoneID args) (Changes args)
         = Ok d \<longrightarrow>
       fst (handle p evt) = Err e \<and> submissions (snd (handle p evt)) = [])"
proof -
  have run: "renderFields c d (allFields (Batch d)) = (Err e, d', rs)"
    using WriteTemplateFields_renderFields [OF assms] by simp
  note dist = distinct_allFields [of "Batch d"]
  note sorted = sorted_allFields [of "Batch d"]
  note w = written_failed [OF run]
  from renderFields_fields [OF run]
  have fields: "map field rs = take (length rs) (allFields (Batch d))"
    and last: "rs \<noteq> []" "rendered (last rs) = Err e"
    and ok: "\<forall>r\<in>set (butlast rs). \<exists>s. rendered r = Ok s" by simp_all
  have 1: "\<forall>g\<in>set (allFields (Batch d)). before g (field (last rs)) \<longrightarrow> g \<in> field ` set (butlast rs)"
    using renderFields_reached [OF run sorted] w by auto
  have 2: "\<forall>r\<in>set (butlast rs). \<exists>s. rendered r = Ok s \<and> readField (Batch d') (field r) = Some s"
    using ok renderFields_persist [OF run dist] by (meson in_set_butlastD)
  have 3: "\<forall>g. g \<notin> field ` set (butlast rs) \<longrightarrow> readField (Batch d') g = readField (Batch d) g"
    using renderFields_frame [OF run] w by simp
  have 4: "fst (handle p evt) = Err e \<and> submissions (snd (handle p evt)) = []"
    if "c = services p" "parseFullEvent (decoder p) evt = Inr (message, args)"
      "Event message \<noteq> ''autoscaling:TEST_NOTIFICATION''" "NewSession p = None"
      "populate (services p) (EC2InstanceID message) (messageArgs.HostedZoneID args) (Changes args)
         = Ok d"
    using handle_failed_rendering [OF that(2-5)] assms that(1) by simp
  from fields last 1 2 3 4 show ?thesis by simp
qed

theorem failed_resolution_keeps_rendered_fields_witness:
  "fst (WriteTemplateFields (testAwsClient oneRecord) (scenarioData\<lparr>Batch := failingBatch\<rparr>))
     = Err TemplateParseError
   \<and> readField [upsert ''i-123456789.example.com.'' ''A'' [''54.0.0.1''],
                upsert ''www.example.com.'' ''CNAME'' [''{{.InstanceID'']] (NameField 0)
       = Some ''i-123456789.example.com.''
   \<and> readField [upsert ''i-123456789.example.com.'' ''A'' [''54.0.0.1''],
                upsert ''www.example.com.'' ''CNAME'' [''{{.InstanceID'']] (ValueField 0 0)
       = Some ''54.0.0.1''
   \<and> readField [upsert ''i-123456789.example.com.'' ''A'' [''54.0.0.1''],
                upsert ''www.example.com.'' ''CNAME'' [''{{.InstanceID'']] (ValueField 1 0)
       = readField failingBatch (ValueField 1 0)
   \<and> fst (handle (testProcess testMessage (testMetadata\<lparr>Changes := failingBatch\<rparr>)) ''{}'')
       = Err TemplateParseError
   \<and> submissions (snd (handle (testProcess testMessage (testMetadata\<lparr>Changes := failingBatch\<rparr>)) ''{}''))
       = []"
proof -
  let ?c = "testAwsClient oneRecord"
  let ?d = "scenarioData\<lparr>Batch := failingBatch\<rparr>"
  let ?b = "[upsert ''i-123456789.example.com.'' ''A'' [''54.0.0.1''],
             upsert ''www.example.com.'' ''CNAME'' [''{{.InstanceID'']]"
  let ?r0 = "\<lparr>field = NameField 0, template = ''{{.InstanceID}}.example.com.'',
               lookups = [], rendered = Ok ''i-123456789.example.com.''\<rparr>"
  let ?r1 = "\<lparr>field = ValueField 0 0, template = ''{{.InstancePublicIPAddress}}'',
               lookups = [], rendered = Ok ''54.0.0.1''\<rparr>"
  let ?r2 = "\<lparr>field = NameField 1, template = ''www.example.com.'', lookups = [],
               rendered = Ok ''www.example.com.''\<rparr>"
  let ?r3 = "\<lparr>field = ValueField 1 0, template = ''{{.InstanceID'', lookups = [],
               rendered = Err TemplateParseError\<rparr>"
  let ?a = "testMetadata\<lparr>Changes := failingBatch\<rparr>"
  let ?p = "testProcess testMessage ?a"
  have run: "WriteTemplateFields ?c ?d = (Err TemplateParseError, ?d\<lparr>Batch := ?b\<rparr>, [?r0, ?r1, ?r2, ?r3])"
    by code_simp
  have 1: "?c = services ?p" by (simp add: testProcess_def)
  have 2: "parseFullEvent (decoder ?p) ''{}'' = Inr (testMessage, ?a)" by code_simp
  have 3: "Event testMessage \<noteq> ''autoscaling:TEST_NOTIFICATION''" by code_simp
  have 4: "NewSession ?p = None" by code_simp
  have 5: "populate (services ?p) (EC2InstanceID testMessage) (messageArgs.HostedZoneID ?a)
             (Changes ?a) = Ok ?d" by code_simp
  note t = failed_resolution_keeps_rendered_fields [OF run, where p = ?p and evt = "''{}''"
      and message = testMessage and args = ?a]
  from t have "readField ?b (NameField 0) = Some ''i-123456789.example.com.''"
    and "readField ?b (ValueField 0 0) = Some ''54.0.0.1''" by simp_all
  moreover from t have "readField ?b (ValueField 1 0) = readField failingBatch (ValueField 1 0)"
    by simp
  moreover from t 1 2 3 4 5
  have "fst (handle ?p ''{}'') = Err TemplateParseError \<and> submissions (snd (handle ?p ''{}'')) = []"
    by simp
  ultimately show ?thesis using run by simp
qed

section \<open>Propagation\<close>




lemma accepted_sync [simp]: "accepted syncWaiterConfig status = (status = ''INSYNC'')"
  by (auto simp add: accepted_def syncWaiterConfig_def)




end
